theory Spec2Isabelle
  imports Main
begin

section \<open>Python values and decoded event arguments\<close>

text \<open>
  The values that reach the polling task are Python objects. The task tells them apart
  only by \<^verbatim>\<open>is None\<close>, \<^verbatim>\<open>isinstance(v, int)\<close>, \<^verbatim>\<open>.lower()\<close> and \<^verbatim>\<open>str(v)\<close>, so a value is
  \<^item> \<open>PyNone\<close>, a \<open>PyBool\<close>, a \<open>PyInt\<close> (unbounded) or a \<open>PyStr\<close>;
  \<^item> \<open>PyOther s\<close>: a value of a type the JSON encoder has no native form for (bytes,
    HexBytes, Decimal), carried with the text \<open>s\<close> that \<^verbatim>\<open>str(v)\<close> gives for it.
  Floats and containers do not occur among the decoded arguments of the two events.
  A \<^verbatim>\<open>str\<close> is a list of characters; \<^verbatim>\<open>str.lower()\<close> is modelled on the ASCII letters.
\<close>

datatype pyval = PyNone | PyBool bool | PyInt int | PyStr string | PyOther string

datatype py_error =
    AttributeError | TypeError | InvalidOperation
  | DecodeError | ValidationError | IntegrityError | DataError

text \<open>
  \<^verbatim>\<open>decoded_args = dict(decoded_log["args"])\<close>: the items of the dictionary in insertion
  order; the keys are the argument names of the ABI.
\<close>

type_synonym py_dict = "(string \<times> pyval) list"

text \<open>\<^verbatim>\<open>d.get(k)\<close> and \<^verbatim>\<open>d.get(k, default)\<close>.\<close>

definition dict_get_default :: "py_dict \<Rightarrow> string \<Rightarrow> pyval \<Rightarrow> pyval" where
  "dict_get_default d k dflt = (case map_of d k of None \<Rightarrow> dflt | Some v \<Rightarrow> v)"

definition dict_get :: "py_dict \<Rightarrow> string \<Rightarrow> pyval" where
  "dict_get d k = dict_get_default d k PyNone"

text \<open>\<^verbatim>\<open>isinstance(v, int)\<close>: \<^verbatim>\<open>bool\<close> is a subclass of \<^verbatim>\<open>int\<close> in Python.\<close>

fun isinstance_int :: "pyval \<Rightarrow> bool" where
  "isinstance_int (PyInt n) = True"
| "isinstance_int (PyBool b) = True"
| "isinstance_int v = False"

text \<open>\<^verbatim>\<open>Decimal(v)\<close> for an instance of \<^verbatim>\<open>int\<close>: exact at every magnitude.\<close>

fun Decimal_of_int_instance :: "pyval \<Rightarrow> int" where
  "Decimal_of_int_instance (PyInt n) = n"
| "Decimal_of_int_instance (PyBool b) = (if b then 1 else 0)"
| "Decimal_of_int_instance v = 0"

definition lower_char :: "char \<Rightarrow> char" where
  "lower_char c =
     (let n = (of_char c :: nat) in if 65 \<le> n \<and> n \<le> 90 then char_of (n + 32) else c)"

definition str_lower :: "string \<Rightarrow> string" where
  "str_lower s = map lower_char s"

text \<open>\<^verbatim>\<open>v.lower()\<close>: only a \<^verbatim>\<open>str\<close> gives a \<^verbatim>\<open>str\<close> back. \<^verbatim>\<open>None\<close>, \<^verbatim>\<open>int\<close> and \<^verbatim>\<open>bool\<close> have
  no such attribute; for the other types either the attribute is missing or the
  \<^verbatim>\<open>in\<close> test that follows raises \<^verbatim>\<open>TypeError\<close> (bytes).\<close>

fun py_lower :: "pyval \<Rightarrow> py_error + string" where
  "py_lower (PyStr s) = Inr (str_lower s)"
| "py_lower (PyOther s) = Inl TypeError"
| "py_lower v = Inl AttributeError"

fun starts_with :: "string \<Rightarrow> string \<Rightarrow> bool" where
  "starts_with s [] = True"
| "starts_with [] (p # ps) = False"
| "starts_with (c # cs) (p # ps) = (c = p \<and> starts_with cs ps)"

text \<open>\<^verbatim>\<open>sub in s\<close> on two strings.\<close>

fun str_contains :: "string \<Rightarrow> string \<Rightarrow> bool" where
  "str_contains sub [] = (sub = [])"
| "str_contains sub (c # cs) = (starts_with (c # cs) sub \<or> str_contains sub cs)"

section \<open>Raw log entries\<close>

text \<open>
  One entry of \<^verbatim>\<open>event_filter.get_all_entries()\<close>, with the fields the task reads:
  \<^item> \<open>transactionHash\<close>: the text \<^verbatim>\<open>event_log["transactionHash"].hex()\<close>;
  \<^item> \<open>blockNumber\<close>, \<open>logIndex\<close>: Python integers;
  \<^item> \<open>process_log\<close>: what \<^verbatim>\<open>dict(event_interface.process_log(event_log)["args"])\<close> gives
    for this entry, an error when decoding raises.
\<close>

record raw_log =
  transactionHash :: string
  blockNumber :: int
  logIndex :: int
  process_log :: "py_error + py_dict"

section \<open>The fraud heuristic (tasks.py, detect\_fraud)\<close>

text \<open>The body of the first \<^verbatim>\<open>try\<close>: the value \<^verbatim>\<open>is_fraudulent\<close> is set to, or the error raised.\<close>

definition amount_rule :: "py_dict \<Rightarrow> py_error + bool" where
  "amount_rule decoded_args =
     (let amount = dict_get decoded_args ''amount'' in
      if amount \<noteq> PyNone \<and> isinstance_int amount then
        (let fraud_threshold = (10 ^ 24 :: int) in
         if Decimal_of_int_instance amount > fraud_threshold then Inr True else Inr False)
      else Inr False)"

text \<open>The body of the second \<^verbatim>\<open>try\<close>.\<close>

definition message_rule :: "py_dict \<Rightarrow> py_error + bool" where
  "message_rule decoded_args =
     (let message = dict_get_default decoded_args ''message'' (PyStr '''') in
      case py_lower message of
        Inl err \<Rightarrow> Inl err
      | Inr lowered \<Rightarrow> Inr (str_contains ''phishing attempt'' lowered))"

text \<open>\<^verbatim>\<open>except Exception\<close>: the error is logged and \<^verbatim>\<open>is_fraudulent\<close> keeps its value.\<close>

definition after_try :: "bool \<Rightarrow> py_error + bool \<Rightarrow> bool" where
  "after_try is_fraudulent body =
     (case body of Inl err \<Rightarrow> is_fraudulent | Inr fired \<Rightarrow> (if fired then True else is_fraudulent))"

definition detect_fraud :: "string \<Rightarrow> raw_log \<Rightarrow> py_dict \<Rightarrow> bool" where
  "detect_fraud event_name event_log decoded_args =
     (let is_fraudulent = False;
          is_fraudulent =
            (if event_name = ''TransactionSubmitted'' \<and> decoded_args \<noteq> []
             then after_try is_fraudulent (amount_rule decoded_args) else is_fraudulent);
          is_fraudulent =
            (if event_name = ''ContractEvent'' \<and> decoded_args \<noteq> []
             then after_try is_fraudulent (message_rule decoded_args) else is_fraudulent)
      in is_fraudulent)"


section \<open>Validators (validators.py)\<close>

definition is_hex_digit :: "char \<Rightarrow> bool" where
  "is_hex_digit c = (c \<in> set ''0123456789abcdefABCDEF'')"

text \<open>
  \<^verbatim>\<open>re.match(r'^0x[a-fA-F0-9]{n}$', value)\<close>: in Python \<^verbatim>\<open>$\<close> also matches just before a
  newline that ends the string.
\<close>

definition matches_0x_hex :: "nat \<Rightarrow> string \<Rightarrow> bool" where
  "matches_0x_hex n value =
     (let body = (if value \<noteq> [] \<and> last value = CHR 0x0A then butlast value else value)
      in take 2 body = ''0x'' \<and> length body = n + 2 \<and> list_all is_hex_digit (drop 2 body))"

definition validate_blockchain_address :: "string \<Rightarrow> py_error + unit" where
  "validate_blockchain_address value =
     (if \<not> matches_0x_hex 40 value then Inl ValidationError else Inr ())"

definition validate_transaction_hash :: "string \<Rightarrow> py_error + unit" where
  "validate_transaction_hash value =
     (if \<not> matches_0x_hex 64 value then Inl ValidationError else Inr ())"

definition validate_block_number :: "int \<Rightarrow> py_error + unit" where
  "validate_block_number value = (if value < 0 then Inl ValidationError else Inr ())"

section \<open>Stored entities (models.py)\<close>

text \<open>Timestamps are seconds since the epoch.\<close>

record transaction =
  transaction_hash :: string
  block_number :: int
  created_at :: int

text \<open>The JSON document that \<^verbatim>\<open>json.dumps\<close> writes; its text goes into the \<open>data\<close> column.\<close>

datatype json = JNull | JBool bool | JNumber int | JString string | JObject "(string \<times> json) list"

record contract_event =
  transaction_id :: string
  log_index :: int
  event_name :: string
  contract_address :: string
  block_timestamp :: int
  is_fraudulent :: bool
  data :: json
  event_from_address :: pyval
  event_to_address :: pyval
  event_amount :: "int option"
  event_tx_hash_param :: pyval
  event_sender_address :: pyval
  event_message :: pyval
  event_onchain_timestamp :: pyval

text \<open>The two tables, rows in insertion order. The automatic \<open>id\<close> of an event row is not
  read by the task and is left out.\<close>

record database =
  transactions :: "transaction list"
  events :: "contract_event list"

section \<open>The surroundings of the task\<close>

datatype init_result = NotConnected | InitRaised string | ContractReady string

datatype fetch_result = EventNotInABI | FetchRaised | Entries "raw_log list"

text \<open>
  What the task reads from outside the repository:
  \<^item> \<open>CONTRACT_ADDRESS\<close>, \<open>CONTRACT_ABI_PATH\<close>: the two settings;
  \<^item> \<open>web3_init\<close>: the outcome of lines 85 to 101 (provider, ABI file, contract instance);
    \<open>ContractReady a\<close> carries \<^verbatim>\<open>Web3.to_checksum_address(CONTRACT_ADDRESS)\<close>;
  \<^item> \<open>latest_block\<close>: \<^verbatim>\<open>w3.eth.block_number\<close>, \<open>None\<close> when reading it raises;
  \<^item> \<open>fetch\<close>: the event interface, filter and entries for an event name and block range;
  \<^item> \<open>block_time\<close>: \<^verbatim>\<open>w3.eth.get_block(n)["timestamp"]\<close>, \<open>None\<close> when it raises;
  \<^item> \<open>now\<close>: the wall clock, one reading for a pass;
  \<^item> \<open>Decimal_other\<close>: \<^verbatim>\<open>Decimal(v)\<close> for a value that is not an \<^verbatim>\<open>int\<close>;
  \<^item> \<open>tx_storable\<close>, \<open>event_storable\<close>: whether the storage engine accepts the column
    values of a row (ranges and lengths are checked by the engine, not by the task).
\<close>

record env =
  CONTRACT_ADDRESS :: "string option"
  CONTRACT_ABI_PATH :: "string option"
  web3_init :: init_result
  latest_block :: "int option"
  fetch :: "string \<Rightarrow> int \<Rightarrow> int \<Rightarrow> fetch_result"
  block_time :: "int \<Rightarrow> int option"
  now :: int
  Decimal_other :: "pyval \<Rightarrow> py_error + int"
  tx_storable :: "string \<Rightarrow> int \<Rightarrow> bool"
  event_storable :: "contract_event \<Rightarrow> bool"

section \<open>Storage operations used by the task\<close>

definition find_transaction :: "database \<Rightarrow> string \<Rightarrow> transaction option" where
  "find_transaction db tx_hash = find (\<lambda>t. transaction_hash t = tx_hash) (transactions db)"

text \<open>\<^verbatim>\<open>Transaction.objects.get_or_create(transaction_hash=h, defaults={"block_number": b})\<close>.\<close>

definition get_or_create ::
  "env \<Rightarrow> database \<Rightarrow> string \<Rightarrow> int \<Rightarrow> py_error + (database \<times> transaction \<times> bool)" where
  "get_or_create e db tx_hash block_num =
     (case find_transaction db tx_hash of
        Some t \<Rightarrow> Inr (db, t, False)
      | None \<Rightarrow>
          if \<not> tx_storable e tx_hash block_num then Inl DataError
          else
            (let t = \<lparr>transaction_hash = tx_hash, block_number = block_num, created_at = now e\<rparr>
             in Inr (db\<lparr>transactions := transactions db @ [t]\<rparr>, t, True)))"

text \<open>\<^verbatim>\<open>transaction_obj.save()\<close>: the row with this primary key is rewritten.\<close>

definition save_transaction :: "env \<Rightarrow> database \<Rightarrow> transaction \<Rightarrow> py_error + database" where
  "save_transaction e db t =
     (if \<not> tx_storable e (transaction_hash t) (block_number t) then Inl DataError
      else Inr (db\<lparr>transactions :=
                  map (\<lambda>r. if transaction_hash r = transaction_hash t then t else r)
                      (transactions db)\<rparr>))"

text \<open>\<^verbatim>\<open>ContractEvent.objects.filter(transaction=t, log_index=i).exists()\<close>.\<close>

definition event_exists :: "database \<Rightarrow> string \<Rightarrow> int \<Rightarrow> bool" where
  "event_exists db tx_hash i =
     (filter (\<lambda>r. transaction_id r = tx_hash \<and> log_index r = i) (events db) \<noteq> [])"

text \<open>\<^verbatim>\<open>ContractEvent.objects.create(**row)\<close>, under \<^verbatim>\<open>unique_together\<close> of the model.\<close>

definition create_event :: "env \<Rightarrow> database \<Rightarrow> contract_event \<Rightarrow> py_error + database" where
  "create_event e db row =
     (if event_exists db (transaction_id row) (log_index row) then Inl IntegrityError
      else if \<not> event_storable e row then Inl DataError
      else Inr (db\<lparr>events := events db @ [row]\<rparr>))"

section \<open>The polling task (tasks.py, poll\_contract\_events)\<close>

definition get_block_timestamp :: "env \<Rightarrow> int \<Rightarrow> int" where
  "get_block_timestamp e block_num =
     (case block_time e block_num of Some ts \<Rightarrow> ts | None \<Rightarrow> now e)"

text \<open>\<^verbatim>\<open>json.dumps(decoded_args, default=str)\<close>: \<^verbatim>\<open>None\<close>, \<^verbatim>\<open>bool\<close>, \<^verbatim>\<open>int\<close> (of any size) and
  \<^verbatim>\<open>str\<close> have a native JSON form; \<^verbatim>\<open>default\<close> is called on the other values only.\<close>

fun json_of :: "pyval \<Rightarrow> json" where
  "json_of PyNone = JNull"
| "json_of (PyBool b) = JBool b"
| "json_of (PyInt n) = JNumber n"
| "json_of (PyStr s) = JString s"
| "json_of (PyOther s) = JString s"

definition json_dumps :: "py_dict \<Rightarrow> json" where
  "json_dumps d = JObject (map (\<lambda>(k, v). (k, json_of v)) d)"

definition Decimal :: "env \<Rightarrow> pyval \<Rightarrow> py_error + int" where
  "Decimal e v = (if isinstance_int v then Inr (Decimal_of_int_instance v) else Decimal_other e v)"

text \<open>Lines 170 to 190: the keyword arguments of the new row.\<close>

definition event_data_for_model ::
  "env \<Rightarrow> string \<Rightarrow> string \<Rightarrow> transaction \<Rightarrow> int \<Rightarrow> int \<Rightarrow> bool \<Rightarrow> py_dict
     \<Rightarrow> py_error + contract_event" where
  "event_data_for_model e checksum_address name transaction_obj log_idx block_ts fraudulent
       decoded_args =
     (let base = \<lparr>transaction_id = transaction_hash transaction_obj,
                  log_index = log_idx,
                  event_name = name,
                  contract_address = checksum_address,
                  block_timestamp = block_ts,
                  is_fraudulent = fraudulent,
                  data = json_dumps decoded_args,
                  event_from_address = PyNone, event_to_address = PyNone,
                  event_amount = None, event_tx_hash_param = PyNone,
                  event_sender_address = PyNone, event_message = PyNone,
                  event_onchain_timestamp = PyNone\<rparr>
      in if name = ''TransactionSubmitted'' then
           (let amount_val = dict_get decoded_args ''amount'' in
            case (if amount_val \<noteq> PyNone then map_sum id Some (Decimal e amount_val)
                  else Inr None) of
              Inl err \<Rightarrow> Inl err
            | Inr amount \<Rightarrow>
                Inr (base\<lparr>event_from_address := dict_get decoded_args ''from'',
                          event_to_address := dict_get decoded_args ''to'',
                          event_amount := amount,
                          event_tx_hash_param := dict_get decoded_args ''txHash''\<rparr>))
         else if name = ''ContractEvent'' then
           Inr (base\<lparr>event_sender_address := dict_get decoded_args ''sender'',
                     event_message := dict_get decoded_args ''message'',
                     event_onchain_timestamp := dict_get decoded_args ''timestamp''\<rparr>)
         else Inr base)"

datatype outcome = Inserted | DuplicateSkipped | Failed py_error

record run_state =
  db :: database
  processed_count :: nat
  fraud_detected_count :: nat

text \<open>Lines 139 to 146: the transaction row is fetched or created, and its block number
  raised when the entry reports a later block.\<close>

definition upsert_transaction ::
  "env \<Rightarrow> database \<Rightarrow> string \<Rightarrow> int \<Rightarrow> py_error + (database \<times> transaction)" where
  "upsert_transaction e db0 tx_hash block_num =
     (case get_or_create e db0 tx_hash block_num of
        Inl err \<Rightarrow> Inl err
      | Inr (db1, transaction_obj, created) \<Rightarrow>
          if \<not> created \<and> block_number transaction_obj < block_num then
            (let raised = transaction_obj\<lparr>block_number := block_num\<rparr>
             in case save_transaction e db1 raised of
                  Inl err \<Rightarrow> Inl err
                | Inr db2 \<Rightarrow> Inr (db2, raised))
          else Inr (db1, transaction_obj))"

text \<open>
  Lines 148 to 195, after the transaction row is in place: the duplicate check, decoding,
  validation, the verdict, the new row. An error leaves the \<^verbatim>\<open>atomic\<close> block, which
  restores the tables to \<open>db rs\<close>; the counters are Python variables and keep their values.
\<close>

definition store_event ::
  "env \<Rightarrow> string \<Rightarrow> string \<Rightarrow> run_state \<Rightarrow> raw_log \<Rightarrow> database \<Rightarrow> transaction
     \<Rightarrow> run_state \<times> outcome" where
  "store_event e checksum_address name rs event_log db2 transaction_obj =
     (let tx_hash = transactionHash event_log;
          block_num = blockNumber event_log;
          log_idx = logIndex event_log
      in if event_exists db2 (transaction_hash transaction_obj) log_idx
         then (rs\<lparr>db := db2\<rparr>, DuplicateSkipped)
         else
           (case process_log event_log of
              Inl err \<Rightarrow> (rs, Failed err)
            | Inr decoded_args \<Rightarrow>
              (case validate_transaction_hash tx_hash of
                 Inl err \<Rightarrow> (rs, Failed err)
               | Inr _ \<Rightarrow>
                 (case validate_block_number block_num of
                    Inl err \<Rightarrow> (rs, Failed err)
                  | Inr _ \<Rightarrow>
                    (let fraudulent = detect_fraud name event_log decoded_args;
                         rs1 = (if fraudulent
                                then rs\<lparr>fraud_detected_count := fraud_detected_count rs + 1\<rparr>
                                else rs);
                         block_ts = get_block_timestamp e block_num
                     in case event_data_for_model e checksum_address name transaction_obj
                               log_idx block_ts fraudulent decoded_args of
                          Inl err \<Rightarrow> (rs1, Failed err)
                        | Inr row \<Rightarrow>
                          (case create_event e db2 row of
                             Inl err \<Rightarrow> (rs1, Failed err)
                           | Inr db3 \<Rightarrow>
                               (rs1\<lparr>db := db3,
                                     processed_count := processed_count rs1 + 1\<rparr>,
                                Inserted)))))))"

text \<open>Lines 131 to 198: the body of the loop over the entries, with its \<^verbatim>\<open>try\<close>.\<close>

definition process_event_log ::
  "env \<Rightarrow> string \<Rightarrow> string \<Rightarrow> run_state \<Rightarrow> raw_log \<Rightarrow> run_state \<times> outcome" where
  "process_event_log e checksum_address name rs event_log =
     (let tx_hash = transactionHash event_log;
          block_num = blockNumber event_log
      in case upsert_transaction e (db rs) tx_hash block_num of
           Inl err \<Rightarrow> (rs, Failed err)
         | Inr (db2, transaction_obj) \<Rightarrow>
             store_event e checksum_address name rs event_log db2 transaction_obj)"

text \<open>\<^verbatim>\<open>for event_log in events\<close>, and the outcome of each entry (what the log lines tell).\<close>

fun process_events ::
  "env \<Rightarrow> string \<Rightarrow> string \<Rightarrow> run_state \<Rightarrow> raw_log list \<Rightarrow> run_state" where
  "process_events e checksum_address name rs [] = rs"
| "process_events e checksum_address name rs (event_log # rest) =
     process_events e checksum_address name
       (fst (process_event_log e checksum_address name rs event_log)) rest"

fun outcomes :: "env \<Rightarrow> string \<Rightarrow> string \<Rightarrow> run_state \<Rightarrow> raw_log list \<Rightarrow> outcome list" where
  "outcomes e checksum_address name rs [] = []"
| "outcomes e checksum_address name rs (event_log # rest) =
     snd (process_event_log e checksum_address name rs event_log)
       # outcomes e checksum_address name
           (fst (process_event_log e checksum_address name rs event_log)) rest"

text \<open>Lines 118 to 201: one event name; a missing event or a failing query skips it.\<close>

definition poll_event_name ::
  "env \<Rightarrow> string \<Rightarrow> int \<Rightarrow> int \<Rightarrow> run_state \<Rightarrow> string \<Rightarrow> run_state" where
  "poll_event_name e checksum_address from_block to_block rs name =
     (case fetch e name from_block to_block of
        EventNotInABI \<Rightarrow> rs
      | FetchRaised \<Rightarrow> rs
      | Entries evs \<Rightarrow> process_events e checksum_address name rs evs)"

fun poll_event_names ::
  "env \<Rightarrow> string \<Rightarrow> int \<Rightarrow> int \<Rightarrow> run_state \<Rightarrow> string list \<Rightarrow> run_state" where
  "poll_event_names e checksum_address from_block to_block rs [] = rs"
| "poll_event_names e checksum_address from_block to_block rs (name # names) =
     poll_event_names e checksum_address from_block to_block
       (poll_event_name e checksum_address from_block to_block rs name) names"

datatype task_result =
    ConfigurationError | ConnectionError | InitializationError string | BlockNumberError
  | Summary nat nat

text \<open>\<^verbatim>\<open>not s\<close> for a setting: unset or empty.\<close>

definition falsy :: "string option \<Rightarrow> bool" where
  "falsy s = (s = None \<or> s = Some [])"

definition event_names_to_poll :: "string list" where
  "event_names_to_poll = [''TransactionSubmitted'', ''ContractEvent'']"

definition poll_contract_events :: "env \<Rightarrow> int \<Rightarrow> database \<Rightarrow> database \<times> task_result" where
  "poll_contract_events e start_block_offset db0 =
     (if falsy (CONTRACT_ADDRESS e) \<or> falsy (CONTRACT_ABI_PATH e) then (db0, ConfigurationError)
      else
        (case web3_init e of
           NotConnected \<Rightarrow> (db0, ConnectionError)
         | InitRaised msg \<Rightarrow> (db0, InitializationError msg)
         | ContractReady checksum_address \<Rightarrow>
           (case latest_block e of
              None \<Rightarrow> (db0, BlockNumberError)
            | Some latest \<Rightarrow>
              (let from_block = max 0 (latest - start_block_offset);
                   to_block = latest;
                   rs = poll_event_names e checksum_address from_block to_block
                          \<lparr>db = db0, processed_count = 0, fraud_detected_count = 0\<rparr>
                          event_names_to_poll
               in (db rs, Summary (processed_count rs) (fraud_detected_count rs))))))"

section \<open>Example entries\<close>

text \<open>Two entries as a node returns them, used to run the definitions on concrete input.\<close>

definition transfer_log :: raw_log where
  "transfer_log =
     \<lparr>transactionHash = ''0xaaaaaaaaaaaaaaaaaaaaaaaaaaaaaaaaaaaaaaaaaaaaaaaaaaaaaaaaaaaaaaaa'',
      blockNumber = 100,
      logIndex = 0,
      process_log = Inr [(''from'', PyStr ''0x1111111111111111111111111111111111111111''),
                         (''to'', PyStr ''0x2222222222222222222222222222222222222222''),
                         (''amount'', PyInt (10 ^ 24 + 1)),
                         (''txHash'', PyStr ''order-17'')]\<rparr>"

definition message_log :: raw_log where
  "message_log =
     \<lparr>transactionHash = ''0xbbbbbbbbbbbbbbbbbbbbbbbbbbbbbbbbbbbbbbbbbbbbbbbbbbbbbbbbbbbbbbbb'',
      blockNumber = 105,
      logIndex = 1,
      process_log = Inr [(''sender'', PyStr ''0x1111111111111111111111111111111111111111''),
                         (''message'', PyStr ''Please beware, this is a phishing attempt''),
                         (''timestamp'', PyInt 1700000000)]\<rparr>"

section \<open>Notions used in the statements\<close>

text \<open>The keys (transaction, log index) of the stored events.\<close>

definition event_keys :: "database \<Rightarrow> (string \<times> int) set" where
  "event_keys d = set (map (\<lambda>r. (transaction_id r, log_index r)) (events d))"

text \<open>
  Every transaction of \<open>d\<close> is still in \<open>d'\<close> under the same hash, with the same
  first-seen time and a block number that is not lower.
\<close>

definition tx_kept :: "database \<Rightarrow> database \<Rightarrow> bool" where
  "tx_kept d d' =
     (\<forall>h t. find_transaction d h = Some t \<longrightarrow>
        (\<exists>t'. find_transaction d' h = Some t' \<and> transaction_hash t' = transaction_hash t
              \<and> created_at t' = created_at t \<and> block_number t \<le> block_number t'))"

text \<open>The surroundings of a pass over a reachable node, with both events in the ABI.\<close>

definition node_env :: env where
  "node_env =
     \<lparr>CONTRACT_ADDRESS = Some ''0x3333333333333333333333333333333333333333'',
      CONTRACT_ABI_PATH = Some ''TransactionContract.json'',
      web3_init = ContractReady ''0x3333333333333333333333333333333333333333'',
      latest_block = Some 120,
      fetch = (\<lambda>name from_block to_block.
                 if name = ''TransactionSubmitted'' then Entries [transfer_log]
                 else if name = ''ContractEvent'' then Entries [message_log]
                 else EventNotInABI),
      block_time = (\<lambda>n. Some (1700000000 + 12 * n)),
      now = 1700009999,
      Decimal_other = (\<lambda>v. Inl InvalidOperation),
      tx_storable = (\<lambda>h b. True),
      event_storable = (\<lambda>row. True)\<rparr>"

text \<open>A store that already holds the transaction of \<open>transfer_log\<close>, seen at block 90.\<close>

definition seen_db :: database where
  "seen_db =
     \<lparr>transactions =
        [\<lparr>transaction_hash = ''0xaaaaaaaaaaaaaaaaaaaaaaaaaaaaaaaaaaaaaaaaaaaaaaaaaaaaaaaaaaaaaaaa'',
          block_number = 90, created_at = 1600000000\<rparr>],
      events = []\<rparr>"

text \<open>The transaction of \<open>transfer_log\<close> observed again through another entry, at a later block.\<close>

definition transfer_log_reobserved :: raw_log where
  "transfer_log_reobserved = transfer_log\<lparr>blockNumber := 103, logIndex := 2\<rparr>"

text \<open>An entry of another transaction that the event interface cannot decode.\<close>

definition undecodable_log :: raw_log where
  "undecodable_log =
     \<lparr>transactionHash = ''0xdddddddddddddddddddddddddddddddddddddddddddddddddddddddddddddddd'',
      blockNumber = 101,
      logIndex = 0,
      process_log = Inl DecodeError\<rparr>"

text \<open>The query for an event name gave no entries: the name is missing or the node failed.\<close>

definition fetch_failed :: "fetch_result \<Rightarrow> bool" where
  "fetch_failed r = (r = EventNotInABI \<or> r = FetchRaised)"

text \<open>The same node with a failing query for one event name.\<close>

definition env_failing :: "string \<Rightarrow> fetch_result \<Rightarrow> env" where
  "env_failing failing r =
     node_env\<lparr>fetch := (\<lambda>name from_block to_block.
                  if name = failing then r else fetch node_env name from_block to_block)\<rparr>"

definition empty_db :: database where
  "empty_db = \<lparr>transactions = [], events = []\<rparr>"

text \<open>The key under which an entry is stored.\<close>

definition entry_key :: "raw_log \<Rightarrow> string \<times> int" where
  "entry_key ev = (transactionHash ev, logIndex ev)"

text \<open>The row the task builds for an entry once it is decoded.\<close>

definition new_row :: "env \<Rightarrow> string \<Rightarrow> string \<Rightarrow> raw_log \<Rightarrow> py_dict \<Rightarrow> py_error + contract_event" where
  "new_row e c n ev args =
     event_data_for_model e c n
       \<lparr>transaction_hash = transactionHash ev, block_number = blockNumber ev, created_at = now e\<rparr>
       (logIndex ev) (get_block_timestamp e (blockNumber ev)) (detect_fraud n ev args) args"

text \<open>
  An entry whose own content lets it through: it decodes, its hash and block number pass
  the validators, its row can be built and the storage engine accepts the row. A
  malformed entry is one that fails one of these. A well-formed entry is also accepted
  by the transactions table.
\<close>

definition row_accepted :: "env \<Rightarrow> string \<Rightarrow> string \<Rightarrow> raw_log \<Rightarrow> bool" where
  "row_accepted e c n ev =
     (case process_log ev of
        Inl err \<Rightarrow> False
      | Inr args \<Rightarrow>
          validate_transaction_hash (transactionHash ev) = Inr ()
          \<and> validate_block_number (blockNumber ev) = Inr ()
          \<and> (case new_row e c n ev args of Inl err \<Rightarrow> False | Inr row \<Rightarrow> event_storable e row))"

definition malformed :: "env \<Rightarrow> string \<Rightarrow> string \<Rightarrow> raw_log \<Rightarrow> bool" where
  "malformed e c n ev = (\<not> row_accepted e c n ev)"

definition well_formed :: "env \<Rightarrow> string \<Rightarrow> string \<Rightarrow> raw_log \<Rightarrow> bool" where
  "well_formed e c n ev =
     (row_accepted e c n ev \<and> tx_storable e (transactionHash ev) (blockNumber ev))"

text \<open>An observation that was ingested: its entry was stored or skipped as a duplicate.\<close>

definition ingested :: "outcome \<Rightarrow> bool" where
  "ingested out = (out = Inserted \<or> out = DuplicateSkipped)"

text \<open>The block number stored for a transaction hash, if the transaction is stored.\<close>

definition stored_block :: "database \<Rightarrow> string \<Rightarrow> int option" where
  "stored_block d h = map_option block_number (find_transaction d h)"

text \<open>The stored events with the key of an entry.\<close>

definition stored_events :: "database \<Rightarrow> raw_log \<Rightarrow> contract_event list" where
  "stored_events d ev =
     filter (\<lambda>r. transaction_id r = transactionHash ev \<and> log_index r = logIndex ev) (events d)"

text \<open>
  Python's \<^verbatim>\<open>json.loads\<close> on a flat object, the inverse used to read the stored document
  back: numbers give \<^verbatim>\<open>int\<close>, strings \<^verbatim>\<open>str\<close>. The decoder is the standard library's; it
  is not called by the task.
\<close>

fun pyval_of_json :: "json \<Rightarrow> pyval option" where
  "pyval_of_json JNull = Some PyNone"
| "pyval_of_json (JBool b) = Some (PyBool b)"
| "pyval_of_json (JNumber n) = Some (PyInt n)"
| "pyval_of_json (JString s) = Some (PyStr s)"
| "pyval_of_json (JObject kvs) = None"

fun loads_items :: "(string \<times> json) list \<Rightarrow> py_dict option" where
  "loads_items [] = Some []"
| "loads_items ((k, j) # rest) =
     (case pyval_of_json j of
        None \<Rightarrow> None
      | Some v \<Rightarrow> (case loads_items rest of None \<Rightarrow> None | Some d \<Rightarrow> Some ((k, v) # d)))"

fun json_loads :: "json \<Rightarrow> py_dict option" where
  "json_loads (JObject kvs) = loads_items kvs"
| "json_loads j = None"

text \<open>The values with a native JSON form.\<close>

fun is_native :: "pyval \<Rightarrow> bool" where
  "is_native (PyOther s) = False"
| "is_native v = True"

fun all_native :: "py_dict \<Rightarrow> bool" where
  "all_native [] = True"
| "all_native ((k, v) # rest) = (is_native v \<and> all_native rest)"

text \<open>
  A ContractEvent entry with a suspicious message and an on-chain timestamp of \<open>2^64\<close>,
  and a node whose storage engine enforces the range of the \<^verbatim>\<open>PositiveBigIntegerField\<close>
  column \<open>event_onchain_timestamp\<close>.
\<close>

definition oversized_timestamp_log :: raw_log where
  "oversized_timestamp_log =
     \<lparr>transactionHash = ''0xcccccccccccccccccccccccccccccccccccccccccccccccccccccccccccccccc'',
      blockNumber = 110,
      logIndex = 0,
      process_log = Inr [(''sender'', PyStr ''0x1111111111111111111111111111111111111111''),
                         (''message'', PyStr ''phishing attempt''),
                         (''timestamp'', PyInt (2 ^ 64))]\<rparr>"

definition bigint_checking_env :: env where
  "bigint_checking_env =
     node_env\<lparr>fetch := (\<lambda>name from_block to_block.
                  if name = ''ContractEvent'' then Entries [oversized_timestamp_log]
                  else Entries []),
              event_storable := (\<lambda>row. case event_onchain_timestamp row of
                                          PyInt n \<Rightarrow> 0 \<le> n \<and> n \<le> 9223372036854775807
                                        | v \<Rightarrow> True)\<rparr>"

section \<open>Properties of the heuristic\<close>





lemma amount_rule_never_raises: "\<exists>fired. amount_rule decoded_args = Inr fired"
  by (auto simp: amount_rule_def Let_def)

lemma detect_fraud_TransactionSubmitted:
  "detect_fraud ''TransactionSubmitted'' event_log decoded_args =
     (decoded_args \<noteq> [] \<and> amount_rule decoded_args = Inr True)"
  by (auto simp: detect_fraud_def after_try_def Let_def amount_rule_def split: sum.splits)


text \<open>
  C5. For a TransactionSubmitted event the verdict is true exactly when the decoded
  amount is an integer strictly above \<open>10^24\<close>: an amount of \<open>10^24\<close> gives false, an
  amount of \<open>10^24 + 1\<close> gives true.
\<close>

lemma high_amount_rule_strict_aux:
  "detect_fraud ''TransactionSubmitted'' event_log decoded_args =
     (\<exists>n. map_of decoded_args ''amount'' = Some (PyInt n) \<and> 10 ^ 24 < n)"
proof (cases "map_of decoded_args ''amount''")
  case None
  then show ?thesis
    by (simp add: detect_fraud_TransactionSubmitted amount_rule_def dict_get_def
        dict_get_default_def)
next
  case (Some v)
  then have "decoded_args \<noteq> []" by auto
  with Some show ?thesis
    by (cases v)
      (simp_all add: detect_fraud_TransactionSubmitted amount_rule_def dict_get_def
        dict_get_default_def Let_def)
qed

theorem high_amount_rule_strict:
  "(detect_fraud ''TransactionSubmitted'' event_log decoded_args =
      (\<exists>n. map_of decoded_args ''amount'' = Some (PyInt n) \<and> 10 ^ 24 < n))
   \<and> detect_fraud ''TransactionSubmitted'' event_log [(''amount'', PyInt (10 ^ 24))] = False
   \<and> detect_fraud ''TransactionSubmitted'' event_log [(''amount'', PyInt (10 ^ 24 + 1))] = True"
proof -
  have "detect_fraud ''TransactionSubmitted'' event_log decoded_args =
     (\<exists>n. map_of decoded_args ''amount'' = Some (PyInt n) \<and> 10 ^ 24 < n)"
    by (rule high_amount_rule_strict_aux)
  moreover
  have "detect_fraud ''TransactionSubmitted'' event_log [(''amount'', PyInt (10 ^ 24))] = False"
    by (simp add: detect_fraud_TransactionSubmitted amount_rule_def dict_get_def
        dict_get_default_def Let_def)
  moreover
  have "detect_fraud ''TransactionSubmitted'' event_log [(''amount'', PyInt (10 ^ 24 + 1))] = True"
    by (simp add: detect_fraud_TransactionSubmitted amount_rule_def dict_get_def
        dict_get_default_def Let_def)
  ultimately show ?thesis by blast
qed

text \<open>
  C10. The high-amount rule fires only for integer amounts: when the decoded amount of a
  TransactionSubmitted event is absent, or is a value that is not an integer (a string,
  a decimal, \<^verbatim>\<open>None\<close>), the verdict is false whatever the magnitude the value denotes.
\<close>

theorem high_amount_rule_integers_only:
  "(\<forall>n. map_of decoded_args ''amount'' \<noteq> Some (PyInt n))
   \<longrightarrow> detect_fraud ''TransactionSubmitted'' event_log decoded_args = False"
  using high_amount_rule_strict_aux [of event_log decoded_args] by auto

theorem high_amount_rule_integers_only_witness:
  "(\<forall>n. map_of [(''amount'', PyStr ''1000000000000000000000000000000'')] ''amount''
          \<noteq> Some (PyInt n))
   \<and> detect_fraud ''TransactionSubmitted'' transfer_log
        [(''amount'', PyStr ''1000000000000000000000000000000'')] = False
   \<and> detect_fraud ''TransactionSubmitted'' transfer_log
        [(''amount'', PyOther ''1E+30'')] = False
   \<and> detect_fraud ''TransactionSubmitted'' transfer_log [(''to'', PyStr ''0x00'')] = False"
  using high_amount_rule_integers_only
          [of "[(''amount'', PyStr ''1000000000000000000000000000000'')]" transfer_log]
        high_amount_rule_integers_only [of "[(''amount'', PyOther ''1E+30'')]" transfer_log]
        high_amount_rule_integers_only [of "[(''to'', PyStr ''0x00'')]" transfer_log]
  by simp



section \<open>Properties of the store and of the pass\<close>

lemma event_exists_keys: "event_exists d h i = ((h, i) \<in> event_keys d)"
  by (auto simp: event_exists_def event_keys_def filter_empty_conv)

lemma find_append_single:
  "find P (xs @ [t]) = (case find P xs of Some r \<Rightarrow> Some r | None \<Rightarrow> if P t then Some t else None)"
  by (induction xs) auto

lemma find_map_replace:
  "transaction_hash t = k \<Longrightarrow>
   find (\<lambda>r. transaction_hash r = h)
        (map (\<lambda>r. if transaction_hash r = k then t else r) xs)
   = (case find (\<lambda>r. transaction_hash r = h) xs of
        None \<Rightarrow> None
      | Some r \<Rightarrow> if h = k then Some t else Some r)"
  by (induction xs) auto

lemma find_transaction_hash:
  "find_transaction d h = Some t \<Longrightarrow> transaction_hash t = h"
  by (auto simp: find_transaction_def find_Some_iff)

lemma event_data_for_model_fields:
  "event_data_for_model e c n t i ts f args = Inr row \<Longrightarrow>
     transaction_id row = transaction_hash t \<and> log_index row = i \<and> event_name row = n
     \<and> contract_address row = c \<and> block_timestamp row = ts \<and> is_fraudulent row = f
     \<and> data row = json_dumps args"
  by (auto simp: event_data_for_model_def Let_def split: if_splits sum.splits)

lemma create_event_Inr:
  "create_event e d row = Inr d' \<Longrightarrow>
     d' = d\<lparr>events := events d @ [row]\<rparr> \<and> event_storable e row
     \<and> \<not> event_exists d (transaction_id row) (log_index row)"
  by (auto simp: create_event_def split: if_splits)

lemma store_event_cases:
  "store_event e c n rs ev d2 t = (rs', out) \<Longrightarrow>
     (out = DuplicateSkipped \<and> rs' = rs\<lparr>db := d2\<rparr>) \<or>
     (\<exists>err. out = Failed err \<and> db rs' = db rs \<and> processed_count rs' = processed_count rs) \<or>
     (out = Inserted \<and> transactions (db rs') = transactions d2
        \<and> processed_count rs' = processed_count rs + 1
        \<and> (\<exists>row. events (db rs') = events d2 @ [row] \<and> transaction_id row = transaction_hash t
                \<and> log_index row = logIndex ev))"
  unfolding store_event_def Let_def
  by (auto split: if_splits sum.splits dest!: create_event_Inr event_data_for_model_fields)


lemma find_transaction_cong:
  "transactions d = transactions d' \<Longrightarrow> find_transaction d h = find_transaction d' h"
  by (simp add: find_transaction_def)

lemma upsert_transaction_absent:
  "find_transaction d h = None \<Longrightarrow>
     upsert_transaction e d h b =
       (if tx_storable e h b
        then Inr (d\<lparr>transactions := transactions d
                       @ [\<lparr>transaction_hash = h, block_number = b, created_at = now e\<rparr>]\<rparr>,
                  \<lparr>transaction_hash = h, block_number = b, created_at = now e\<rparr>)
        else Inl DataError)"
  by (simp add: upsert_transaction_def get_or_create_def Let_def)

lemma upsert_transaction_present:
  "find_transaction d h = Some t0 \<Longrightarrow>
     upsert_transaction e d h b =
       (if block_number t0 < b then
          (if tx_storable e h b
           then Inr (d\<lparr>transactions :=
                         map (\<lambda>r. if transaction_hash r = h then t0\<lparr>block_number := b\<rparr> else r)
                             (transactions d)\<rparr>,
                     t0\<lparr>block_number := b\<rparr>)
           else Inl DataError)
        else Inr (d, t0))"
  by (auto simp: upsert_transaction_def get_or_create_def save_transaction_def Let_def
      dest: find_transaction_hash)

lemma upsert_transaction_Inr:
  assumes "upsert_transaction e d h b = Inr (d2, t)"
  shows "events d2 = events d \<and> transaction_hash t = h \<and>
      find_transaction d2 h = Some t \<and>
      block_number t = (case find_transaction d h of None \<Rightarrow> b
                           | Some t0 \<Rightarrow> max (block_number t0) b) \<and>
      created_at t = (case find_transaction d h of None \<Rightarrow> now e | Some t0 \<Rightarrow> created_at t0) \<and>
      (\<forall>h'. h' \<noteq> h \<longrightarrow> find_transaction d2 h' = find_transaction d h')"
proof (cases "find_transaction d h")
  case None
  with assms show ?thesis
    by (auto simp: upsert_transaction_absent find_transaction_def find_append_single
        split: if_splits option.splits)
next
  case (Some t0)
  then have h0: "transaction_hash t0 = h" by (rule find_transaction_hash)
  with assms Some show ?thesis
    by (auto simp: upsert_transaction_present find_transaction_def find_map_replace
        split: if_splits option.splits)
qed

lemma upsert_transaction_storable:
  "tx_storable e h b \<Longrightarrow> \<exists>d2 t. upsert_transaction e d h b = Inr (d2, t)"
  by (cases "find_transaction d h")
    (auto simp: upsert_transaction_absent upsert_transaction_present)

lemma upsert_transaction_no_change:
  "find_transaction d h = Some t0 \<Longrightarrow> b \<le> block_number t0 \<Longrightarrow>
     upsert_transaction e d h b = Inr (d, t0)"
  by (simp add: upsert_transaction_present)

lemma tx_kept_refl: "tx_kept d d"
  by (simp add: tx_kept_def)

lemma tx_kept_trans:
  assumes "tx_kept d1 d2" "tx_kept d2 d3"
  shows "tx_kept d1 d3"
  unfolding tx_kept_def
proof (intro allI impI)
  fix h t assume "find_transaction d1 h = Some t"
  with assms(1) obtain t2 where t2: "find_transaction d2 h = Some t2"
    "transaction_hash t2 = transaction_hash t" "created_at t2 = created_at t"
    "block_number t \<le> block_number t2"
    unfolding tx_kept_def by blast
  with assms(2) obtain t3 where "find_transaction d3 h = Some t3"
    "transaction_hash t3 = transaction_hash t2" "created_at t3 = created_at t2"
    "block_number t2 \<le> block_number t3"
    unfolding tx_kept_def by blast
  with t2 show "\<exists>t'. find_transaction d3 h = Some t' \<and> transaction_hash t' = transaction_hash t
              \<and> created_at t' = created_at t \<and> block_number t \<le> block_number t'"
    by simp
qed

lemma tx_kept_cong: "transactions d' = transactions d2 \<Longrightarrow> tx_kept d d2 \<Longrightarrow> tx_kept d d'"
  by (simp add: tx_kept_def find_transaction_def)

lemma upsert_transaction_kept:
  assumes "upsert_transaction e d h b = Inr (d2, t)"
  shows "tx_kept d d2"
  unfolding tx_kept_def
proof (intro allI impI)
  fix h' t0 assume f: "find_transaction d h' = Some t0"
  note u = upsert_transaction_Inr [OF assms]
  have u3: "find_transaction d2 h = Some t" using u by blast
  have u4: "block_number t = (case find_transaction d h of None \<Rightarrow> b
                           | Some t0 \<Rightarrow> max (block_number t0) b)" using u by blast
  have u5: "created_at t = (case find_transaction d h of None \<Rightarrow> now e
                           | Some t0 \<Rightarrow> created_at t0)" using u by blast
  have u2: "transaction_hash t = h" using u by blast
  have u6: "h' \<noteq> h \<Longrightarrow> find_transaction d2 h' = find_transaction d h'" using u by blast
  show "\<exists>t'. find_transaction d2 h' = Some t' \<and> transaction_hash t' = transaction_hash t0
              \<and> created_at t' = created_at t0 \<and> block_number t0 \<le> block_number t'"
  proof (cases "h' = h")
    case True
    with f u2 u3 u4 u5 find_transaction_hash [OF f] show ?thesis by simp
  next
    case False
    with f u6 show ?thesis by simp
  qed
qed


lemma process_event_log_cases:
  assumes "process_event_log e c n rs ev = (rs', out)"
  shows "(\<exists>err. out = Failed err \<and> db rs' = db rs \<and> processed_count rs' = processed_count rs)
       \<or> (\<exists>d2 t. upsert_transaction e (db rs) (transactionHash ev) (blockNumber ev) = Inr (d2, t)
            \<and> ((out = DuplicateSkipped \<and> rs' = rs\<lparr>db := d2\<rparr>)
               \<or> (out = Inserted \<and> transactions (db rs') = transactions d2
                   \<and> processed_count rs' = processed_count rs + 1
                   \<and> (\<exists>row. events (db rs') = events (db rs) @ [row]
                          \<and> transaction_id row = transactionHash ev
                          \<and> log_index row = logIndex ev))))"
proof (cases "upsert_transaction e (db rs) (transactionHash ev) (blockNumber ev)")
  case (Inl err)
  with assms have "rs' = rs" "out = Failed err"
    by (simp_all add: process_event_log_def)
  then show ?thesis by blast
next
  case (Inr p)
  obtain d2 t where p: "p = (d2, t)" by (cases p)
  note up = Inr [unfolded p]
  have u1: "events d2 = events (db rs)"
    using upsert_transaction_Inr [OF up] by blast
  have u2: "transaction_hash t = transactionHash ev"
    using upsert_transaction_Inr [OF up] by blast
  from assms up have "store_event e c n rs ev d2 t = (rs', out)"
    by (simp add: process_event_log_def)
  from store_event_cases [OF this]
  consider "out = DuplicateSkipped" "rs' = rs\<lparr>db := d2\<rparr>"
    | err where "out = Failed err" "db rs' = db rs" "processed_count rs' = processed_count rs"
    | row where "out = Inserted" "transactions (db rs') = transactions d2"
        "processed_count rs' = processed_count rs + 1" "events (db rs') = events d2 @ [row]"
        "transaction_id row = transaction_hash t" "log_index row = logIndex ev"
    by blast
  then show ?thesis
  proof cases
    case 1
    with up show ?thesis by simp
  next
    case 2
    then show ?thesis by simp
  next
    case 3
    with up u1 u2 show ?thesis by simp
  qed
qed

lemma process_event_log_kept:
  "tx_kept (db rs) (db (fst (process_event_log e c n rs ev)))"
proof -
  obtain rs' out where p: "process_event_log e c n rs ev = (rs', out)"
    by (cases "process_event_log e c n rs ev")
  from process_event_log_cases [OF p]
  consider "db rs' = db rs"
    | d2 t where "upsert_transaction e (db rs) (transactionHash ev) (blockNumber ev) = Inr (d2, t)"
        "transactions (db rs') = transactions d2"
    by fastforce
  then show ?thesis
  proof cases
    case 1
    then show ?thesis by (simp add: p tx_kept_refl)
  next
    case 2
    then show ?thesis
      using tx_kept_cong [OF 2(2) upsert_transaction_kept [OF 2(1)]] by (simp add: p)
  qed
qed

lemma process_events_kept: "tx_kept (db rs) (db (process_events e c n rs evs))"
proof (induction evs arbitrary: rs)
  case Nil
  show ?case by (simp add: tx_kept_refl)
next
  case (Cons ev evs)
  have "tx_kept (db rs)
          (db (process_events e c n (fst (process_event_log e c n rs ev)) evs))"
    by (rule tx_kept_trans [OF process_event_log_kept Cons.IH])
  then show ?case by simp
qed

lemma poll_event_name_kept: "tx_kept (db rs) (db (poll_event_name e c fb tb rs name))"
  by (cases "fetch e name fb tb")
    (simp_all add: poll_event_name_def tx_kept_refl process_events_kept)

lemma poll_event_names_kept: "tx_kept (db rs) (db (poll_event_names e c fb tb rs names))"
proof (induction names arbitrary: rs)
  case Nil
  show ?case by (simp add: tx_kept_refl)
next
  case (Cons name names)
  have "tx_kept (db rs)
          (db (poll_event_names e c fb tb (poll_event_name e c fb tb rs name) names))"
    by (rule tx_kept_trans [OF poll_event_name_kept Cons.IH])
  then show ?case by simp
qed

lemma poll_contract_events_cases:
  "poll_contract_events e off db0 =
     (if falsy (CONTRACT_ADDRESS e) \<or> falsy (CONTRACT_ABI_PATH e) then (db0, ConfigurationError)
      else case web3_init e of
           NotConnected \<Rightarrow> (db0, ConnectionError)
         | InitRaised msg \<Rightarrow> (db0, InitializationError msg)
         | ContractReady c \<Rightarrow>
           (case latest_block e of
              None \<Rightarrow> (db0, BlockNumberError)
            | Some latest \<Rightarrow>
               (db (poll_event_names e c (max 0 (latest - off)) latest
                      \<lparr>db = db0, processed_count = 0, fraud_detected_count = 0\<rparr>
                      event_names_to_poll),
                Summary
                  (processed_count (poll_event_names e c (max 0 (latest - off)) latest
                      \<lparr>db = db0, processed_count = 0, fraud_detected_count = 0\<rparr>
                      event_names_to_poll))
                  (fraud_detected_count (poll_event_names e c (max 0 (latest - off)) latest
                      \<lparr>db = db0, processed_count = 0, fraud_detected_count = 0\<rparr>
                      event_names_to_poll)))))"
  by (simp add: poll_contract_events_def Let_def split: init_result.split option.split)

lemma poll_contract_events_kept: "tx_kept db0 (fst (poll_contract_events e off db0))"
proof -
  have k: "\<And>c fb tb. tx_kept db0
      (db (poll_event_names e c fb tb
             \<lparr>db = db0, processed_count = 0, fraud_detected_count = 0\<rparr> event_names_to_poll))"
    using poll_event_names_kept
      [of "\<lparr>db = db0, processed_count = 0, fraud_detected_count = 0\<rparr>"] by simp
  show ?thesis
    unfolding poll_contract_events_cases
    by (simp add: tx_kept_refl k split: init_result.split option.split)
qed

text \<open>
  C9. Once a transaction is stored, a later observation of its hash changes at most its
  block number: after one more entry is processed, and after a whole pass, the
  transaction is still stored under the same hash with the same first-seen time.
\<close>

theorem transaction_hash_and_created_at_kept:
  assumes "find_transaction (db rs) h = Some t"
  shows "(\<exists>t'. find_transaction (db (fst (process_event_log e c n rs ev))) h = Some t'
              \<and> transaction_hash t' = transaction_hash t \<and> created_at t' = created_at t)
       \<and> (\<exists>t'. find_transaction (fst (poll_contract_events e off (db rs))) h = Some t'
              \<and> transaction_hash t' = transaction_hash t \<and> created_at t' = created_at t)"
proof
  from process_event_log_kept [of rs e c n ev] assms
  show "\<exists>t'. find_transaction (db (fst (process_event_log e c n rs ev))) h = Some t'
              \<and> transaction_hash t' = transaction_hash t \<and> created_at t' = created_at t"
    unfolding tx_kept_def by blast
  from poll_contract_events_kept [of "db rs" e off] assms
  show "\<exists>t'. find_transaction (fst (poll_contract_events e off (db rs))) h = Some t'
              \<and> transaction_hash t' = transaction_hash t \<and> created_at t' = created_at t"
    unfolding tx_kept_def by blast
qed

theorem transaction_hash_and_created_at_kept_witness:
  "find_transaction seen_db (transactionHash transfer_log)
     = Some \<lparr>transaction_hash = transactionHash transfer_log, block_number = 90,
             created_at = 1600000000\<rparr>
   \<and> (\<exists>t'. find_transaction
              (db (fst (process_event_log node_env ''0x3333333333333333333333333333333333333333''
                          ''TransactionSubmitted''
                          \<lparr>db = seen_db, processed_count = 0, fraud_detected_count = 0\<rparr>
                          transfer_log)))
              (transactionHash transfer_log) = Some t'
          \<and> transaction_hash t' = transactionHash transfer_log \<and> created_at t' = 1600000000)
   \<and> (\<exists>t'. find_transaction (fst (poll_contract_events node_env 100 seen_db))
              (transactionHash transfer_log) = Some t'
          \<and> transaction_hash t' = transactionHash transfer_log \<and> created_at t' = 1600000000)"
proof -
  have h: "find_transaction
             (db \<lparr>db = seen_db, processed_count = 0, fraud_detected_count = 0\<rparr>)
             (transactionHash transfer_log)
     = Some \<lparr>transaction_hash = transactionHash transfer_log, block_number = 90,
             created_at = 1600000000\<rparr>"
    by (simp add: find_transaction_def seen_db_def transfer_log_def)
  from transaction_hash_and_created_at_kept [OF h, of node_env
      "''0x3333333333333333333333333333333333333333''" "''TransactionSubmitted''"
      transfer_log 100] h
  show ?thesis by simp
qed

lemma poll_event_name_failed:
  "fetch_failed (fetch e name fb tb) \<Longrightarrow> poll_event_name e c fb tb rs name = rs"
  by (auto simp: fetch_failed_def poll_event_name_def)

text \<open>
  C8. When the query for one of the two event names fails (the name is not in the ABI, or
  the node query raises), only that name is skipped: the pass is the processing of the
  other name's entries, and it ends with a summary of counts.
\<close>

theorem fetch_failure_skips_only_that_event:
  assumes "\<not> falsy (CONTRACT_ADDRESS e)" and "\<not> falsy (CONTRACT_ABI_PATH e)"
    and "web3_init e = ContractReady c" and "latest_block e = Some latest"
  shows "(fetch_failed (fetch e ''TransactionSubmitted'' (max 0 (latest - off)) latest) \<longrightarrow>
           poll_contract_events e off db0 =
             (let rs = poll_event_name e c (max 0 (latest - off)) latest
                         \<lparr>db = db0, processed_count = 0, fraud_detected_count = 0\<rparr>
                         ''ContractEvent''
              in (db rs, Summary (processed_count rs) (fraud_detected_count rs))))
       \<and> (fetch_failed (fetch e ''ContractEvent'' (max 0 (latest - off)) latest) \<longrightarrow>
           poll_contract_events e off db0 =
             (let rs = poll_event_name e c (max 0 (latest - off)) latest
                         \<lparr>db = db0, processed_count = 0, fraud_detected_count = 0\<rparr>
                         ''TransactionSubmitted''
              in (db rs, Summary (processed_count rs) (fraud_detected_count rs))))
       \<and> (\<exists>inserted flagged. snd (poll_contract_events e off db0) = Summary inserted flagged)"
  using assms
  by (simp add: poll_contract_events_cases event_names_to_poll_def poll_event_name_failed
      Let_def)

lemmas run_defs =
  poll_contract_events_def event_names_to_poll_def poll_event_name_def
  process_event_log_def upsert_transaction_def get_or_create_def save_transaction_def
  find_transaction_def store_event_def event_exists_def create_event_def
  event_data_for_model_def get_block_timestamp_def validate_transaction_hash_def
  validate_block_number_def matches_0x_hex_def is_hex_digit_def falsy_def Decimal_def
  dict_get_def dict_get_default_def json_dumps_def detect_fraud_def after_try_def
  amount_rule_def message_rule_def str_lower_def lower_char_def

lemma run_only_messages:
  "snd (poll_contract_events (env_failing ''TransactionSubmitted'' FetchRaised) 100 empty_db)
     = Summary 1 1"
  by (simp add: run_defs env_failing_def node_env_def empty_db_def message_log_def
      transfer_log_def Let_def)

lemma run_only_transfers:
  "snd (poll_contract_events (env_failing ''ContractEvent'' EventNotInABI) 100 empty_db)
     = Summary 1 1"
  by (simp add: run_defs env_failing_def node_env_def empty_db_def message_log_def
      transfer_log_def Let_def)

theorem fetch_failure_skips_only_that_event_witness:
  "\<not> falsy (CONTRACT_ADDRESS (env_failing ''TransactionSubmitted'' FetchRaised))
   \<and> \<not> falsy (CONTRACT_ABI_PATH (env_failing ''TransactionSubmitted'' FetchRaised))
   \<and> web3_init (env_failing ''TransactionSubmitted'' FetchRaised)
       = ContractReady ''0x3333333333333333333333333333333333333333''
   \<and> latest_block (env_failing ''TransactionSubmitted'' FetchRaised) = Some 120
   \<and> fetch_failed (fetch (env_failing ''TransactionSubmitted'' FetchRaised)
                     ''TransactionSubmitted'' (max 0 (120 - 100)) 120)
   \<and> fetch_failed (fetch (env_failing ''ContractEvent'' EventNotInABI)
                     ''ContractEvent'' (max 0 (120 - 100)) 120)
   \<and> poll_contract_events (env_failing ''TransactionSubmitted'' FetchRaised) 100 empty_db =
       (let rs = poll_event_name (env_failing ''TransactionSubmitted'' FetchRaised)
                   ''0x3333333333333333333333333333333333333333'' (max 0 (120 - 100)) 120
                   \<lparr>db = empty_db, processed_count = 0, fraud_detected_count = 0\<rparr>
                   ''ContractEvent''
        in (db rs, Summary (processed_count rs) (fraud_detected_count rs)))
   \<and> poll_contract_events (env_failing ''ContractEvent'' EventNotInABI) 100 empty_db =
       (let rs = poll_event_name (env_failing ''ContractEvent'' EventNotInABI)
                   ''0x3333333333333333333333333333333333333333'' (max 0 (120 - 100)) 120
                   \<lparr>db = empty_db, processed_count = 0, fraud_detected_count = 0\<rparr>
                   ''TransactionSubmitted''
        in (db rs, Summary (processed_count rs) (fraud_detected_count rs)))
   \<and> snd (poll_contract_events (env_failing ''TransactionSubmitted'' FetchRaised) 100 empty_db)
       = Summary 1 1
   \<and> snd (poll_contract_events (env_failing ''ContractEvent'' EventNotInABI) 100 empty_db)
       = Summary 1 1"
proof -
  let ?a = "env_failing ''TransactionSubmitted'' FetchRaised"
  let ?b = "env_failing ''ContractEvent'' EventNotInABI"
  let ?c = "''0x3333333333333333333333333333333333333333''"
  have a: "\<not> falsy (CONTRACT_ADDRESS ?a)" "\<not> falsy (CONTRACT_ABI_PATH ?a)"
    "web3_init ?a = ContractReady ?c" "latest_block ?a = Some 120"
    by (simp_all add: env_failing_def node_env_def falsy_def)
  have b: "\<not> falsy (CONTRACT_ADDRESS ?b)" "\<not> falsy (CONTRACT_ABI_PATH ?b)"
    "web3_init ?b = ContractReady ?c" "latest_block ?b = Some 120"
    by (simp_all add: env_failing_def node_env_def falsy_def)
  have fa: "fetch_failed (fetch ?a ''TransactionSubmitted'' (max 0 (120 - 100)) 120)"
    by (simp add: env_failing_def fetch_failed_def)
  have fb: "fetch_failed (fetch ?b ''ContractEvent'' (max 0 (120 - 100)) 120)"
    by (simp add: env_failing_def fetch_failed_def)
  note ta = fetch_failure_skips_only_that_event [OF a, of 100 empty_db]
  note tb = fetch_failure_skips_only_that_event [OF b, of 100 empty_db]
  from ta fa have ra: "poll_contract_events ?a 100 empty_db =
       (let rs = poll_event_name ?a ?c (max 0 (120 - 100)) 120
                   \<lparr>db = empty_db, processed_count = 0, fraud_detected_count = 0\<rparr>
                   ''ContractEvent''
        in (db rs, Summary (processed_count rs) (fraud_detected_count rs)))"
    by blast
  from tb fb have rb: "poll_contract_events ?b 100 empty_db =
       (let rs = poll_event_name ?b ?c (max 0 (120 - 100)) 120
                   \<lparr>db = empty_db, processed_count = 0, fraud_detected_count = 0\<rparr>
                   ''TransactionSubmitted''
        in (db rs, Summary (processed_count rs) (fraud_detected_count rs)))"
    by blast
  from a fa fb ra rb run_only_messages run_only_transfers show ?thesis by blast
qed

lemma event_data_for_model_hash_only:
  "transaction_hash t = transaction_hash t' \<Longrightarrow>
     event_data_for_model e c n t i ts f a = event_data_for_model e c n t' i ts f a"
  by (simp add: event_data_for_model_def)

lemma new_row_eq:
  "transaction_hash t = transactionHash ev \<Longrightarrow>
     event_data_for_model e c n t (logIndex ev) (get_block_timestamp e (blockNumber ev))
        (detect_fraud n ev args) args = new_row e c n ev args"
  unfolding new_row_def by (rule event_data_for_model_hash_only) simp

lemma new_row_key:
  "new_row e c n ev args = Inr row \<Longrightarrow>
     transaction_id row = transactionHash ev \<and> log_index row = logIndex ev
     \<and> data row = json_dumps args \<and> is_fraudulent row = detect_fraud n ev args"
  unfolding new_row_def by (drule event_data_for_model_fields) simp

lemma store_event_Inserted:
  assumes "store_event e c n rs ev d2 t = (rs', Inserted)"
  shows "\<exists>args row. process_log ev = Inr args
     \<and> event_data_for_model e c n t (logIndex ev) (get_block_timestamp e (blockNumber ev))
         (detect_fraud n ev args) args = Inr row
     \<and> event_storable e row
     \<and> validate_transaction_hash (transactionHash ev) = Inr ()
     \<and> validate_block_number (blockNumber ev) = Inr ()
     \<and> db rs' = d2\<lparr>events := events d2 @ [row]\<rparr>
     \<and> processed_count rs' = processed_count rs + 1
     \<and> fraud_detected_count rs' =
         fraud_detected_count rs + (if detect_fraud n ev args then 1 else 0)"
  using assms unfolding store_event_def Let_def
  by (auto split: if_splits sum.splits dest!: create_event_Inr)

lemma store_event_fresh:
  assumes "\<not> event_exists d2 (transaction_hash t) (logIndex ev)"
    and "process_log ev = Inr args"
    and "validate_transaction_hash (transactionHash ev) = Inr ()"
    and "validate_block_number (blockNumber ev) = Inr ()"
    and "event_data_for_model e c n t (logIndex ev) (get_block_timestamp e (blockNumber ev))
         (detect_fraud n ev args) args = Inr row"
    and "event_storable e row"
  shows "snd (store_event e c n rs ev d2 t) = Inserted
     \<and> db (fst (store_event e c n rs ev d2 t)) = d2\<lparr>events := events d2 @ [row]\<rparr>
     \<and> processed_count (fst (store_event e c n rs ev d2 t)) = processed_count rs + 1
     \<and> fraud_detected_count (fst (store_event e c n rs ev d2 t)) =
         fraud_detected_count rs + (if detect_fraud n ev args then 1 else 0)"
proof -
  from assms(5) have k: "transaction_id row = transaction_hash t" "log_index row = logIndex ev"
    by (auto dest: event_data_for_model_fields)
  with assms(1,6) have c: "create_event e d2 row = Inr (d2\<lparr>events := events d2 @ [row]\<rparr>)"
    by (simp add: create_event_def)
  show ?thesis
    using assms(1-5) c by (simp add: store_event_def Let_def)
qed

lemma process_event_log_Inserted:
  assumes "process_event_log e c n rs ev = (rs', Inserted)"
  shows "\<exists>args row d2 t.
       upsert_transaction e (db rs) (transactionHash ev) (blockNumber ev) = Inr (d2, t)
     \<and> process_log ev = Inr args
     \<and> new_row e c n ev args = Inr row
     \<and> event_storable e row
     \<and> validate_transaction_hash (transactionHash ev) = Inr ()
     \<and> validate_block_number (blockNumber ev) = Inr ()
     \<and> db rs' = d2\<lparr>events := events (db rs) @ [row]\<rparr>
     \<and> processed_count rs' = processed_count rs + 1
     \<and> fraud_detected_count rs' =
         fraud_detected_count rs + (if detect_fraud n ev args then 1 else 0)"
proof (cases "upsert_transaction e (db rs) (transactionHash ev) (blockNumber ev)")
  case (Inl err)
  with assms show ?thesis by (simp add: process_event_log_def)
next
  case (Inr p)
  obtain d2 t where p: "p = (d2, t)" by (cases p)
  note up = Inr [unfolded p]
  have u1: "events d2 = events (db rs)"
    using upsert_transaction_Inr [OF up] by blast
  have u2: "transaction_hash t = transactionHash ev"
    using upsert_transaction_Inr [OF up] by blast
  from assms up have "store_event e c n rs ev d2 t = (rs', Inserted)"
    by (simp add: process_event_log_def)
  from store_event_Inserted [OF this] obtain args row where
    s: "process_log ev = Inr args"
       "event_data_for_model e c n t (logIndex ev) (get_block_timestamp e (blockNumber ev))
         (detect_fraud n ev args) args = Inr row"
       "event_storable e row"
       "validate_transaction_hash (transactionHash ev) = Inr ()"
       "validate_block_number (blockNumber ev) = Inr ()"
       "db rs' = d2\<lparr>events := events d2 @ [row]\<rparr>"
       "processed_count rs' = processed_count rs + 1"
       "fraud_detected_count rs' =
         fraud_detected_count rs + (if detect_fraud n ev args then 1 else 0)"
    by blast
  from s(2) have nr: "new_row e c n ev args = Inr row"
    by (simp add: new_row_eq [OF u2])
  from s(6) u1 have d: "db rs' = d2\<lparr>events := events (db rs) @ [row]\<rparr>" by simp
  from up s(1) nr s(3) s(4) s(5) d s(7) s(8) show ?thesis by blast
qed

lemma process_event_log_Inserted_accepted:
  assumes "snd (process_event_log e c n rs ev) = Inserted"
  shows "row_accepted e c n ev"
proof -
  obtain rs' where "process_event_log e c n rs ev = (rs', Inserted)"
    using assms by (cases "process_event_log e c n rs ev") simp
  from process_event_log_Inserted [OF this] obtain args row where
    "process_log ev = Inr args" "new_row e c n ev args = Inr row" "event_storable e row"
    "validate_transaction_hash (transactionHash ev) = Inr ()"
    "validate_block_number (blockNumber ev) = Inr ()"
    by blast
  then show ?thesis by (simp add: row_accepted_def)
qed

lemma process_event_log_not_Inserted:
  assumes "snd (process_event_log e c n rs ev) \<noteq> Inserted"
  shows "events (db (fst (process_event_log e c n rs ev))) = events (db rs)
       \<and> processed_count (fst (process_event_log e c n rs ev)) = processed_count rs"
proof -
  obtain rs' out where p: "process_event_log e c n rs ev = (rs', out)"
    by (cases "process_event_log e c n rs ev")
  with assms have ni: "out \<noteq> Inserted" by simp
  from process_event_log_cases [OF p] ni
  consider "db rs' = db rs" "processed_count rs' = processed_count rs"
    | d2 t where "upsert_transaction e (db rs) (transactionHash ev) (blockNumber ev) = Inr (d2, t)"
        "rs' = rs\<lparr>db := d2\<rparr>"
    by blast
  then show ?thesis
  proof cases
    case 1
    then show ?thesis by (simp add: p)
  next
    case 2
    have "events d2 = events (db rs)" using upsert_transaction_Inr [OF 2(1)] by blast
    with 2(2) show ?thesis by (simp add: p)
  qed
qed

lemma process_event_log_malformed:
  assumes "malformed e c n ev"
  shows "snd (process_event_log e c n rs ev) \<noteq> Inserted
       \<and> events (db (fst (process_event_log e c n rs ev))) = events (db rs)
       \<and> processed_count (fst (process_event_log e c n rs ev)) = processed_count rs"
proof -
  have "snd (process_event_log e c n rs ev) \<noteq> Inserted"
    using assms process_event_log_Inserted_accepted [of e c n rs ev]
    by (auto simp: malformed_def)
  with process_event_log_not_Inserted [OF this] show ?thesis by simp
qed

lemma process_event_log_well_formed:
  assumes "well_formed e c n ev"
    and "\<not> event_exists (db rs) (transactionHash ev) (logIndex ev)"
  shows "\<exists>args row d2 t.
       upsert_transaction e (db rs) (transactionHash ev) (blockNumber ev) = Inr (d2, t)
     \<and> process_log ev = Inr args
     \<and> new_row e c n ev args = Inr row
     \<and> snd (process_event_log e c n rs ev) = Inserted
     \<and> db (fst (process_event_log e c n rs ev)) = d2\<lparr>events := events (db rs) @ [row]\<rparr>
     \<and> processed_count (fst (process_event_log e c n rs ev)) = processed_count rs + 1
     \<and> fraud_detected_count (fst (process_event_log e c n rs ev)) =
         fraud_detected_count rs + (if detect_fraud n ev args then 1 else 0)"
proof -
  from assms(1) obtain args row where
    w: "process_log ev = Inr args"
       "validate_transaction_hash (transactionHash ev) = Inr ()"
       "validate_block_number (blockNumber ev) = Inr ()"
       "new_row e c n ev args = Inr row" "event_storable e row"
       "tx_storable e (transactionHash ev) (blockNumber ev)"
    by (auto simp: well_formed_def row_accepted_def split: sum.splits)
  from upsert_transaction_storable [OF w(6)] obtain d2 t where
    up: "upsert_transaction e (db rs) (transactionHash ev) (blockNumber ev) = Inr (d2, t)"
    by blast
  have u1: "events d2 = events (db rs)"
    using upsert_transaction_Inr [OF up] by blast
  have u2: "transaction_hash t = transactionHash ev"
    using upsert_transaction_Inr [OF up] by blast
  from assms(2) u1 u2 have fresh: "\<not> event_exists d2 (transaction_hash t) (logIndex ev)"
    by (simp add: event_exists_def)
  from w(4) have r: "event_data_for_model e c n t (logIndex ev)
         (get_block_timestamp e (blockNumber ev)) (detect_fraud n ev args) args = Inr row"
    by (simp add: new_row_eq [OF u2])
  note s = store_event_fresh [OF fresh w(1) w(2) w(3) r w(5), of rs]
  have pe: "process_event_log e c n rs ev = store_event e c n rs ev d2 t"
    using up by (simp add: process_event_log_def)
  from s u1 have
    "snd (process_event_log e c n rs ev) = Inserted"
    "db (fst (process_event_log e c n rs ev)) = d2\<lparr>events := events (db rs) @ [row]\<rparr>"
    "processed_count (fst (process_event_log e c n rs ev)) = processed_count rs + 1"
    "fraud_detected_count (fst (process_event_log e c n rs ev)) =
         fraud_detected_count rs + (if detect_fraud n ev args then 1 else 0)"
    by (simp_all add: pe)
  with up w(1) w(4) show ?thesis by blast
qed

text \<open>
  C1. A well-formed entry whose key is not yet stored is inserted by its first ingestion,
  which stores exactly one row under its key, the row built from the entry. A second
  ingestion of the same entry, in whatever surroundings, is skipped as a duplicate and
  leaves the whole state, that row included, as the first ingestion left it.
\<close>

theorem ingestion_idempotent:
  assumes "well_formed e c n ev"
    and "\<not> event_exists (db rs) (transactionHash ev) (logIndex ev)"
  shows "\<exists>args row.
       process_log ev = Inr args \<and> new_row e c n ev args = Inr row
     \<and> snd (process_event_log e c n rs ev) = Inserted
     \<and> stored_events (db (fst (process_event_log e c n rs ev))) ev = [row]
     \<and> process_event_log e' c' n' (fst (process_event_log e c n rs ev)) ev
         = (fst (process_event_log e c n rs ev), DuplicateSkipped)"
proof -
  let ?rs1 = "fst (process_event_log e c n rs ev)"
  let ?h = "transactionHash ev"
  from process_event_log_well_formed [OF assms, of ] obtain args row d2 t where
    up: "upsert_transaction e (db rs) ?h (blockNumber ev) = Inr (d2, t)"
    and pl: "process_log ev = Inr args"
    and nr: "new_row e c n ev args = Inr row"
    and ins: "snd (process_event_log e c n rs ev) = Inserted"
    and d1: "db ?rs1 = d2\<lparr>events := events (db rs) @ [row]\<rparr>"
    by blast
  have k: "transaction_id row = ?h" "log_index row = logIndex ev"
    using new_row_key [OF nr] by simp_all
  have u2: "transaction_hash t = ?h" using upsert_transaction_Inr [OF up] by blast
  have u3: "find_transaction d2 ?h = Some t" using upsert_transaction_Inr [OF up] by blast
  have u4: "block_number t = (case find_transaction (db rs) ?h of None \<Rightarrow> blockNumber ev
                           | Some t0 \<Rightarrow> max (block_number t0) (blockNumber ev))"
    using upsert_transaction_Inr [OF up] by blast
  have ge: "blockNumber ev \<le> block_number t"
    unfolding u4 by (simp split: option.split)
  have f1: "find_transaction (db ?rs1) ?h = Some t"
    using u3 d1 by (simp add: find_transaction_def)
  have st: "stored_events (db ?rs1) ev = [row]"
    using assms(2) d1 k by (simp add: stored_events_def event_exists_def)
  have ex: "event_exists (db ?rs1) (transaction_hash t) (logIndex ev)"
    using d1 k u2 by (simp add: event_exists_def)
  have up2: "upsert_transaction e' (db ?rs1) ?h (blockNumber ev) = Inr (db ?rs1, t)"
    by (rule upsert_transaction_no_change [OF f1 ge])
  have "process_event_log e' c' n' ?rs1 ev = (?rs1, DuplicateSkipped)"
    using up2 ex by (simp add: process_event_log_def store_event_def)
  with pl nr ins st show ?thesis by blast
qed

lemma transfer_log_well_formed:
  "well_formed node_env ''0x3333333333333333333333333333333333333333'' ''TransactionSubmitted''
     transfer_log"
  by (simp add: well_formed_def row_accepted_def new_row_def run_defs node_env_def
      transfer_log_def Let_def)

lemma message_log_well_formed:
  "well_formed node_env ''0x3333333333333333333333333333333333333333'' ''ContractEvent''
     message_log"
  by (simp add: well_formed_def row_accepted_def new_row_def run_defs node_env_def
      message_log_def Let_def)

theorem ingestion_idempotent_witness:
  "well_formed node_env ''0x3333333333333333333333333333333333333333'' ''TransactionSubmitted''
     transfer_log
   \<and> \<not> event_exists (db \<lparr>db = empty_db, processed_count = 0, fraud_detected_count = 0\<rparr>)
          (transactionHash transfer_log) (logIndex transfer_log)
   \<and> snd (process_event_log node_env ''0x3333333333333333333333333333333333333333''
            ''TransactionSubmitted''
            \<lparr>db = empty_db, processed_count = 0, fraud_detected_count = 0\<rparr> transfer_log)
       = Inserted
   \<and> process_event_log node_env ''0x3333333333333333333333333333333333333333''
        ''TransactionSubmitted''
        (fst (process_event_log node_env ''0x3333333333333333333333333333333333333333''
               ''TransactionSubmitted''
               \<lparr>db = empty_db, processed_count = 0, fraud_detected_count = 0\<rparr> transfer_log))
        transfer_log
       = (fst (process_event_log node_env ''0x3333333333333333333333333333333333333333''
               ''TransactionSubmitted''
               \<lparr>db = empty_db, processed_count = 0, fraud_detected_count = 0\<rparr> transfer_log),
          DuplicateSkipped)"
proof -
  let ?rs = "\<lparr>db = empty_db, processed_count = 0, fraud_detected_count = 0\<rparr>"
  have f: "\<not> event_exists (db ?rs) (transactionHash transfer_log) (logIndex transfer_log)"
    by (simp add: event_exists_def empty_db_def)
  from ingestion_idempotent [OF transfer_log_well_formed f,
      of node_env "''0x3333333333333333333333333333333333333333''" "''TransactionSubmitted''"]
    transfer_log_well_formed f
  show ?thesis by blast
qed

text \<open>
  C3. The flagged counter is raised as soon as the verdict is known, before the row is
  built and inserted. On a ContractEvent entry with a suspicious message whose on-chain
  timestamp does not fit the column, the insert fails and is rolled back, and the pass
  reports no new event and one flagged event.
\<close>

theorem flagged_counted_without_insert:
  "poll_contract_events bigint_checking_env 100 empty_db = (empty_db, Summary 0 1)
   \<and> outcomes bigint_checking_env ''0x3333333333333333333333333333333333333333'' ''ContractEvent''
        \<lparr>db = empty_db, processed_count = 0, fraud_detected_count = 0\<rparr> [oversized_timestamp_log]
      = [Failed DataError]"
  by (simp add: run_defs bigint_checking_env_def node_env_def empty_db_def
      oversized_timestamp_log_def Let_def)

lemma loads_items_dumps:
  "all_native args \<Longrightarrow> loads_items (map (\<lambda>(k, v). (k, json_of v)) args) = Some args"
proof (induction args)
  case Nil
  show ?case by simp
next
  case (Cons kv args)
  obtain k v where kv: "kv = (k, v)" by (cases kv)
  from Cons.prems kv have n: "is_native v" "all_native args" by simp_all
  from n(1) have "pyval_of_json (json_of v) = Some v" by (cases v) simp_all
  with Cons.IH [OF n(2)] kv show ?case by simp
qed

lemma json_loads_dumps: "all_native args \<Longrightarrow> json_loads (json_dumps args) = Some args"
  by (simp add: json_dumps_def loads_items_dumps)

lemma json_dumps_int:
  "map_of args k = Some (PyInt m) \<Longrightarrow>
     \<exists>kvs. json_dumps args = JObject kvs \<and> map_of kvs k = Some (JNumber m)"
  by (simp add: json_dumps_def map_of_map)

text \<open>
  C4, as stated. An integer argument of any size is written as a JSON number, not as its
  decimal string: \<^verbatim>\<open>json.dumps\<close> calls \<^verbatim>\<open>default=str\<close> only on values it cannot encode.
\<close>

theorem large_integer_not_stored_as_string:
  "json_dumps [(''amount'', PyInt 1000000000000000000000000000000)]
     = JObject [(''amount'', JNumber 1000000000000000000000000000000)]
   \<and> json_dumps [(''amount'', PyInt 1000000000000000000000000000000)]
     \<noteq> JObject [(''amount'', JString ''1000000000000000000000000000000'')]"
  by (simp add: json_dumps_def)

text \<open>
  C4, amended. The row inserted for an entry carries \<^verbatim>\<open>json.dumps\<close> of the decoded
  arguments: every integer argument is there as a JSON number of the same value, and when
  all arguments are strings, integers, booleans or null, reading the document back gives
  the decoded arguments exactly.
\<close>

theorem payload_stored_as_json_document:
  assumes "process_event_log e c n rs ev = (rs', Inserted)"
  shows "\<exists>args row. process_log ev = Inr args
       \<and> events (db rs') = events (db rs) @ [row]
       \<and> data row = json_dumps args
       \<and> (\<forall>k m. map_of args k = Some (PyInt m) \<longrightarrow>
            (\<exists>kvs. data row = JObject kvs \<and> map_of kvs k = Some (JNumber m)))
       \<and> (all_native args \<longrightarrow> json_loads (data row) = Some args)"
proof -
  from process_event_log_Inserted [OF assms] obtain args row d2 where
    pl: "process_log ev = Inr args" and nr: "new_row e c n ev args = Inr row"
    and d: "db rs' = d2\<lparr>events := events (db rs) @ [row]\<rparr>"
    by blast
  have dt: "data row = json_dumps args" using new_row_key [OF nr] by simp
  have ev: "events (db rs') = events (db rs) @ [row]" using d by simp
  have i: "\<forall>k m. map_of args k = Some (PyInt m) \<longrightarrow>
            (\<exists>kvs. data row = JObject kvs \<and> map_of kvs k = Some (JNumber m))"
    unfolding dt using json_dumps_int by blast
  have r: "all_native args \<longrightarrow> json_loads (data row) = Some args"
    unfolding dt using json_loads_dumps by blast
  from pl ev dt i r show ?thesis by blast
qed

lemma transfer_log_inserted:
  "process_event_log node_env ''0x3333333333333333333333333333333333333333''
     ''TransactionSubmitted''
     \<lparr>db = empty_db, processed_count = 0, fraud_detected_count = 0\<rparr> transfer_log
   = (fst (process_event_log node_env ''0x3333333333333333333333333333333333333333''
             ''TransactionSubmitted''
             \<lparr>db = empty_db, processed_count = 0, fraud_detected_count = 0\<rparr> transfer_log),
      Inserted)"
  by (simp add: run_defs node_env_def empty_db_def transfer_log_def Let_def)

theorem payload_stored_as_json_document_witness:
  "\<exists>rs' row.
     process_event_log node_env ''0x3333333333333333333333333333333333333333''
       ''TransactionSubmitted''
       \<lparr>db = empty_db, processed_count = 0, fraud_detected_count = 0\<rparr> transfer_log
     = (rs', Inserted)
     \<and> events (db rs') = [row]
     \<and> data row = JObject [(''from'', JString ''0x1111111111111111111111111111111111111111''),
                           (''to'', JString ''0x2222222222222222222222222222222222222222''),
                           (''amount'', JNumber (10 ^ 24 + 1)),
                           (''txHash'', JString ''order-17'')]
     \<and> json_loads (data row)
         = Some [(''from'', PyStr ''0x1111111111111111111111111111111111111111''),
                 (''to'', PyStr ''0x2222222222222222222222222222222222222222''),
                 (''amount'', PyInt (10 ^ 24 + 1)),
                 (''txHash'', PyStr ''order-17'')]"
proof -
  let ?args = "[(''from'', PyStr ''0x1111111111111111111111111111111111111111''),
                (''to'', PyStr ''0x2222222222222222222222222222222222222222''),
                (''amount'', PyInt (10 ^ 24 + 1)),
                (''txHash'', PyStr ''order-17'')]"
  from payload_stored_as_json_document [OF transfer_log_inserted] obtain args row where
    pl: "process_log transfer_log = Inr args"
    and ev: "events (db (fst (process_event_log node_env
               ''0x3333333333333333333333333333333333333333'' ''TransactionSubmitted''
               \<lparr>db = empty_db, processed_count = 0, fraud_detected_count = 0\<rparr> transfer_log)))
             = events (db \<lparr>db = empty_db, processed_count = 0, fraud_detected_count = 0\<rparr>)
               @ [row]"
    and dt: "data row = json_dumps args"
    and r: "all_native args \<longrightarrow> json_loads (data row) = Some args"
    by blast
  from pl have a: "args = ?args" by (simp add: transfer_log_def)
  have n: "all_native ?args" by simp
  from ev have ev': "events (db (fst (process_event_log node_env
               ''0x3333333333333333333333333333333333333333'' ''TransactionSubmitted''
               \<lparr>db = empty_db, processed_count = 0, fraud_detected_count = 0\<rparr> transfer_log)))
             = [row]"
    by (simp add: empty_db_def)
  from dt a have dt': "data row = JObject
        [(''from'', JString ''0x1111111111111111111111111111111111111111''),
         (''to'', JString ''0x2222222222222222222222222222222222222222''),
         (''amount'', JNumber (10 ^ 24 + 1)),
         (''txHash'', JString ''order-17'')]"
    by (simp add: json_dumps_def)
  from r a n have r': "json_loads (data row) = Some ?args" by blast
  from transfer_log_inserted ev' dt' r' show ?thesis by blast
qed

lemma process_event_log_block:
  assumes "ingested (snd (process_event_log e c n rs ev))"
  shows "stored_block (db (fst (process_event_log e c n rs ev))) (transactionHash ev)
       = Some (case stored_block (db rs) (transactionHash ev) of
                 None \<Rightarrow> blockNumber ev
               | Some b0 \<Rightarrow> max b0 (blockNumber ev))"
proof -
  let ?h = "transactionHash ev"
  obtain rs' out where p: "process_event_log e c n rs ev = (rs', out)"
    by (cases "process_event_log e c n rs ev")
  with assms have io: "out = Inserted \<or> out = DuplicateSkipped" by (simp add: ingested_def)
  from process_event_log_cases [OF p] io
  obtain d2 t where up: "upsert_transaction e (db rs) ?h (blockNumber ev) = Inr (d2, t)"
    and tr: "transactions (db rs') = transactions d2"
    by fastforce
  have u3: "find_transaction d2 ?h = Some t" using upsert_transaction_Inr [OF up] by blast
  have u4: "block_number t = (case find_transaction (db rs) ?h of None \<Rightarrow> blockNumber ev
                           | Some t0 \<Rightarrow> max (block_number t0) (blockNumber ev))"
    using upsert_transaction_Inr [OF up] by blast
  have "find_transaction (db rs') ?h = Some t"
    using u3 find_transaction_cong [OF tr] by simp
  then have "stored_block (db rs') ?h = Some (block_number t)" by (simp add: stored_block_def)
  also have "block_number t = (case stored_block (db rs) ?h of
                 None \<Rightarrow> blockNumber ev | Some b0 \<Rightarrow> max b0 (blockNumber ev))"
    unfolding u4 stored_block_def by (simp split: option.split)
  finally show ?thesis by (simp add: p)
qed

lemma process_events_block:
  assumes "\<forall>ev\<in>set es. transactionHash ev = h"
    and "\<forall>out\<in>set (outcomes e c n rs es). ingested out"
  shows "stored_block (db (process_events e c n rs es)) h
       = (if es = [] then stored_block (db rs) h
          else Some (Max (set (map blockNumber es) \<union> set_option (stored_block (db rs) h))))"
  using assms
proof (induction es arbitrary: rs)
  case Nil
  show ?case by simp
next
  case (Cons ev es)
  let ?rs1 = "fst (process_event_log e c n rs ev)"
  let ?b = "blockNumber ev"
  let ?m = "case stored_block (db rs) h of None \<Rightarrow> ?b | Some b0 \<Rightarrow> max b0 ?b"
  from Cons.prems(1) have h: "transactionHash ev = h" and hs: "\<forall>ev\<in>set es. transactionHash ev = h"
    by simp_all
  from Cons.prems(2) have i1: "ingested (snd (process_event_log e c n rs ev))"
    and ios: "\<forall>out\<in>set (outcomes e c n ?rs1 es). ingested out"
    by simp_all
  have s1: "stored_block (db ?rs1) h = Some ?m"
    using process_event_log_block [OF i1] h by simp
  note ih = Cons.IH [OF hs ios]
  show ?case
  proof (cases "es = []")
    case True
    then show ?thesis using s1 by (simp split: option.split add: max.commute)
  next
    case False
    then have ne: "set (map blockNumber es) \<noteq> {}" by simp
    have fin: "finite (set (map blockNumber es))" by simp
    from ih False s1 have a: "stored_block (db (process_events e c n ?rs1 es)) h
        = Some (Max (insert ?m (set (map blockNumber es))))" by simp
    have "Max (insert ?m (set (map blockNumber es)))
        = Max (set (map blockNumber (ev # es)) \<union> set_option (stored_block (db rs) h))"
    proof (cases "stored_block (db rs) h")
      case None
      then show ?thesis by simp
    next
      case (Some b0)
      have "Max (insert (max b0 ?b) (set (map blockNumber es)))
          = max (max b0 ?b) (Max (set (map blockNumber es)))"
        using fin ne by (rule Max_insert)
      also have "\<dots> = max ?b (max b0 (Max (set (map blockNumber es))))"
        by (simp add: max.commute max.left_commute)
      also have "max b0 (Max (set (map blockNumber es)))
          = Max (insert b0 (set (map blockNumber es)))"
        using fin ne by (rule Max_insert [symmetric])
      also have "max ?b (Max (insert b0 (set (map blockNumber es))))
          = Max (insert ?b (insert b0 (set (map blockNumber es))))"
        by (rule Max_insert [symmetric]) simp_all
      finally show ?thesis using Some by (simp add: insert_commute)
    qed
    with a show ?thesis by simp
  qed
qed

lemma process_events_block_kept:
  assumes "stored_block (db rs) h = Some b0"
  shows "\<exists>b1. stored_block (db (process_events e c n rs es)) h = Some b1 \<and> b0 \<le> b1"
proof -
  from assms obtain t where t: "find_transaction (db rs) h = Some t" "block_number t = b0"
    by (auto simp: stored_block_def)
  from process_events_kept [of rs e c n es] t(1)
  obtain t' where "find_transaction (db (process_events e c n rs es)) h = Some t'"
    "block_number t \<le> block_number t'"
    unfolding tx_kept_def by blast
  with t(2) show ?thesis by (simp add: stored_block_def)
qed

text \<open>
  C2. After a non-empty sequence of ingested observations of one transaction hash, in
  whatever order they arrive, the stored block number is the maximum of the observed block
  numbers and of the block number stored before, if any. No sequence of entries, ingested
  or not, lowers the stored block number of any transaction.
\<close>

theorem stored_block_number_is_maximum:
  "(es \<noteq> [] \<and> (\<forall>ev\<in>set es. transactionHash ev = h)
      \<and> (\<forall>out\<in>set (outcomes e c n rs es). ingested out) \<longrightarrow>
      stored_block (db (process_events e c n rs es)) h
        = Some (Max (set (map blockNumber es) \<union> set_option (stored_block (db rs) h))))
   \<and> (\<forall>b0. stored_block (db rs) h = Some b0 \<longrightarrow>
        (\<exists>b1. stored_block (db (process_events e c n rs es)) h = Some b1 \<and> b0 \<le> b1))"
proof
  show "es \<noteq> [] \<and> (\<forall>ev\<in>set es. transactionHash ev = h)
      \<and> (\<forall>out\<in>set (outcomes e c n rs es). ingested out) \<longrightarrow>
      stored_block (db (process_events e c n rs es)) h
        = Some (Max (set (map blockNumber es) \<union> set_option (stored_block (db rs) h)))"
    using process_events_block [of es h e c n rs] by simp
  show "\<forall>b0. stored_block (db rs) h = Some b0 \<longrightarrow>
        (\<exists>b1. stored_block (db (process_events e c n rs es)) h = Some b1 \<and> b0 \<le> b1)"
    using process_events_block_kept by blast
qed

lemma reobserved_outcomes:
  "outcomes node_env ''0x3333333333333333333333333333333333333333'' ''TransactionSubmitted''
     \<lparr>db = seen_db, processed_count = 0, fraud_detected_count = 0\<rparr>
     [transfer_log_reobserved, transfer_log] = [Inserted, Inserted]"
  by (simp add: run_defs node_env_def seen_db_def transfer_log_reobserved_def transfer_log_def
      Let_def)

theorem stored_block_number_is_maximum_witness:
  "map transactionHash [transfer_log_reobserved, transfer_log]
     = [transactionHash transfer_log, transactionHash transfer_log]
   \<and> map blockNumber [transfer_log_reobserved, transfer_log] = [103, 100]
   \<and> outcomes node_env ''0x3333333333333333333333333333333333333333'' ''TransactionSubmitted''
        \<lparr>db = seen_db, processed_count = 0, fraud_detected_count = 0\<rparr>
        [transfer_log_reobserved, transfer_log] = [Inserted, Inserted]
   \<and> stored_block seen_db (transactionHash transfer_log) = Some 90
   \<and> stored_block
        (db (process_events node_env ''0x3333333333333333333333333333333333333333''
               ''TransactionSubmitted''
               \<lparr>db = seen_db, processed_count = 0, fraud_detected_count = 0\<rparr>
               [transfer_log_reobserved, transfer_log]))
        (transactionHash transfer_log) = Some 103"
proof -
  let ?es = "[transfer_log_reobserved, transfer_log]"
  let ?rs = "\<lparr>db = seen_db, processed_count = 0, fraud_detected_count = 0\<rparr>"
  let ?c = "''0x3333333333333333333333333333333333333333''"
  have hs: "map transactionHash ?es
     = [transactionHash transfer_log, transactionHash transfer_log]"
    by (simp add: transfer_log_reobserved_def)
  have bs: "map blockNumber ?es = [103, 100]"
    by (simp add: transfer_log_reobserved_def transfer_log_def)
  have sb: "stored_block seen_db (transactionHash transfer_log) = Some 90"
    by (simp add: stored_block_def find_transaction_def seen_db_def transfer_log_def)
  have hyp: "?es \<noteq> [] \<and> (\<forall>ev\<in>set ?es. transactionHash ev = transactionHash transfer_log)
      \<and> (\<forall>out\<in>set (outcomes node_env ?c ''TransactionSubmitted'' ?rs ?es). ingested out)"
    unfolding reobserved_outcomes by (simp add: ingested_def transfer_log_reobserved_def)
  from stored_block_number_is_maximum
    [of ?es "transactionHash transfer_log" node_env ?c "''TransactionSubmitted''" ?rs] hyp
  have "stored_block (db (process_events node_env ?c ''TransactionSubmitted'' ?rs ?es))
          (transactionHash transfer_log)
        = Some (Max (set (map blockNumber ?es)
                     \<union> set_option (stored_block (db ?rs) (transactionHash transfer_log))))"
    by blast
  also have "\<dots> = Some 103" unfolding bs using sb by simp
  finally show ?thesis using hs bs sb reobserved_outcomes by blast
qed

lemma process_events_append:
  "process_events e c n rs (xs @ ys) = process_events e c n (process_events e c n rs xs) ys"
  by (induction xs arbitrary: rs) simp_all

lemma outcomes_append:
  "outcomes e c n rs (xs @ ys)
     = outcomes e c n rs xs @ outcomes e c n (process_events e c n rs xs) ys"
  by (induction xs arbitrary: rs) simp_all

lemma process_event_log_well_formed_keys:
  assumes "well_formed e c n ev" and "entry_key ev \<notin> event_keys (db rs)"
  shows "snd (process_event_log e c n rs ev) = Inserted
       \<and> processed_count (fst (process_event_log e c n rs ev)) = processed_count rs + 1
       \<and> event_keys (db (fst (process_event_log e c n rs ev)))
           = insert (entry_key ev) (event_keys (db rs))"
proof -
  from assms(2) have fresh: "\<not> event_exists (db rs) (transactionHash ev) (logIndex ev)"
    by (simp add: event_exists_keys entry_key_def)
  from process_event_log_well_formed [OF assms(1) fresh] obtain args row d2 where
    nr: "new_row e c n ev args = Inr row"
    and ins: "snd (process_event_log e c n rs ev) = Inserted"
    and d1: "db (fst (process_event_log e c n rs ev)) = d2\<lparr>events := events (db rs) @ [row]\<rparr>"
    and pc: "processed_count (fst (process_event_log e c n rs ev)) = processed_count rs + 1"
    by blast
  have k: "transaction_id row = transactionHash ev" "log_index row = logIndex ev"
    using new_row_key [OF nr] by simp_all
  have "event_keys (db (fst (process_event_log e c n rs ev)))
           = insert (entry_key ev) (event_keys (db rs))"
    unfolding d1 using k by (simp add: event_keys_def entry_key_def)
  with ins pc show ?thesis by simp
qed

lemma process_events_well_formed:
  assumes "\<forall>ev\<in>set es. well_formed e c n ev"
    and "distinct (map entry_key es)"
    and "\<forall>ev\<in>set es. entry_key ev \<notin> event_keys (db rs)"
  shows "processed_count (process_events e c n rs es) = processed_count rs + length es
       \<and> event_keys (db (process_events e c n rs es)) = event_keys (db rs) \<union> entry_key ` set es
       \<and> outcomes e c n rs es = replicate (length es) Inserted"
  using assms
proof (induction es arbitrary: rs)
  case Nil
  show ?case by simp
next
  case (Cons ev es)
  let ?rs1 = "fst (process_event_log e c n rs ev)"
  from Cons.prems(1) have wf: "well_formed e c n ev"
    and wfs: "\<forall>ev\<in>set es. well_formed e c n ev" by simp_all
  from Cons.prems(2) have nk: "entry_key ev \<notin> entry_key ` set es"
    and ds: "distinct (map entry_key es)" by simp_all
  from Cons.prems(3) have fr: "entry_key ev \<notin> event_keys (db rs)"
    and frs: "\<forall>ev\<in>set es. entry_key ev \<notin> event_keys (db rs)" by simp_all
  note st = process_event_log_well_formed_keys [OF wf fr]
  have s1: "snd (process_event_log e c n rs ev) = Inserted" using st by blast
  have s2: "processed_count ?rs1 = processed_count rs + 1" using st by blast
  have s3: "event_keys (db ?rs1) = insert (entry_key ev) (event_keys (db rs))"
    using st by blast
  have frs1: "\<forall>ev'\<in>set es. entry_key ev' \<notin> event_keys (db ?rs1)"
    unfolding s3 using frs nk by (metis image_eqI insert_iff)
  note ih = Cons.IH [OF wfs ds frs1]
  have i1: "processed_count (process_events e c n ?rs1 es) = processed_count ?rs1 + length es"
    using ih by blast
  have i2: "event_keys (db (process_events e c n ?rs1 es))
      = event_keys (db ?rs1) \<union> entry_key ` set es" using ih by blast
  have i3: "outcomes e c n ?rs1 es = replicate (length es) Inserted" using ih by blast
  show ?case using s1 s2 s3 i1 i2 i3 by simp
qed

text \<open>
  C7. In a batch where one entry is malformed and the others are well formed, with
  distinct keys not yet stored, the malformed entry is not inserted and does not stop the
  loop: every other entry is inserted, exactly their keys are added to the store, and the
  inserted counter grows by the number of the other entries.
\<close>

theorem one_malformed_entry_does_not_abort_batch:
  assumes "malformed e c n bad"
    and "\<forall>ev\<in>set (pre @ post). well_formed e c n ev"
    and "distinct (map entry_key (pre @ post))"
    and "\<forall>ev\<in>set (pre @ post). entry_key ev \<notin> event_keys (db rs)"
  shows "processed_count (process_events e c n rs (pre @ bad # post))
           = processed_count rs + (length (pre @ bad # post) - 1)
       \<and> event_keys (db (process_events e c n rs (pre @ bad # post)))
           = event_keys (db rs) \<union> entry_key ` set (pre @ post)
       \<and> (\<exists>out. out \<noteq> Inserted
            \<and> outcomes e c n rs (pre @ bad # post)
                = replicate (length pre) Inserted @ out # replicate (length post) Inserted)"
proof -
  let ?rs1 = "process_events e c n rs pre"
  let ?rs2 = "fst (process_event_log e c n ?rs1 bad)"
  let ?out = "snd (process_event_log e c n ?rs1 bad)"
  from assms(2) have wpre: "\<forall>ev\<in>set pre. well_formed e c n ev"
    and wpost: "\<forall>ev\<in>set post. well_formed e c n ev" by simp_all
  from assms(3) have dpre: "distinct (map entry_key pre)"
    and dpost: "distinct (map entry_key post)"
    and disj: "entry_key ` set pre \<inter> entry_key ` set post = {}" by simp_all
  from assms(4) have fpre: "\<forall>ev\<in>set pre. entry_key ev \<notin> event_keys (db rs)"
    and fpost: "\<forall>ev\<in>set post. entry_key ev \<notin> event_keys (db rs)" by simp_all
  note p = process_events_well_formed [OF wpre dpre fpre]
  have p1: "processed_count ?rs1 = processed_count rs + length pre" using p by blast
  have p2: "event_keys (db ?rs1) = event_keys (db rs) \<union> entry_key ` set pre" using p by blast
  have p3: "outcomes e c n rs pre = replicate (length pre) Inserted" using p by blast
  note b = process_event_log_malformed [OF assms(1), of ?rs1]
  have b1: "?out \<noteq> Inserted" using b by blast
  have b2: "events (db ?rs2) = events (db ?rs1)" using b by blast
  have b3: "processed_count ?rs2 = processed_count ?rs1" using b by blast
  have b4: "event_keys (db ?rs2) = event_keys (db ?rs1)" using b2 by (simp add: event_keys_def)
  have fpost2: "\<forall>ev\<in>set post. entry_key ev \<notin> event_keys (db ?rs2)"
    unfolding b4 p2 using fpost disj by (metis Un_iff disjoint_iff image_eqI)
  note q = process_events_well_formed [OF wpost dpost fpost2]
  have q1: "processed_count (process_events e c n ?rs2 post) = processed_count ?rs2 + length post"
    using q by blast
  have q2: "event_keys (db (process_events e c n ?rs2 post))
      = event_keys (db ?rs2) \<union> entry_key ` set post" using q by blast
  have q3: "outcomes e c n ?rs2 post = replicate (length post) Inserted" using q by blast
  have r: "process_events e c n rs (pre @ bad # post) = process_events e c n ?rs2 post"
    by (simp add: process_events_append)
  have o: "outcomes e c n rs (pre @ bad # post)
      = replicate (length pre) Inserted @ ?out # replicate (length post) Inserted"
    by (simp add: outcomes_append p3 q3)
  have c1: "processed_count (process_events e c n rs (pre @ bad # post))
           = processed_count rs + (length (pre @ bad # post) - 1)"
    unfolding r using q1 b3 p1 by simp
  have c2: "event_keys (db (process_events e c n rs (pre @ bad # post)))
           = event_keys (db rs) \<union> entry_key ` set (pre @ post)"
    unfolding r using q2 b4 p2 by (simp add: image_Un Un_assoc)
  from c1 c2 b1 o show ?thesis by blast
qed

lemma transfer_log_reobserved_well_formed:
  "well_formed node_env ''0x3333333333333333333333333333333333333333'' ''TransactionSubmitted''
     transfer_log_reobserved"
  by (simp add: well_formed_def row_accepted_def new_row_def run_defs node_env_def
      transfer_log_reobserved_def transfer_log_def Let_def)

lemma batch_outcomes:
  "outcomes node_env ''0x3333333333333333333333333333333333333333'' ''TransactionSubmitted''
     \<lparr>db = empty_db, processed_count = 0, fraud_detected_count = 0\<rparr>
     [transfer_log, undecodable_log, transfer_log_reobserved]
   = [Inserted, Failed DecodeError, Inserted]"
  by (simp add: run_defs node_env_def empty_db_def transfer_log_reobserved_def transfer_log_def
      undecodable_log_def Let_def)

theorem one_malformed_entry_does_not_abort_batch_witness:
  "malformed node_env ''0x3333333333333333333333333333333333333333'' ''TransactionSubmitted''
     undecodable_log
   \<and> well_formed node_env ''0x3333333333333333333333333333333333333333''
       ''TransactionSubmitted'' transfer_log
   \<and> well_formed node_env ''0x3333333333333333333333333333333333333333''
       ''TransactionSubmitted'' transfer_log_reobserved
   \<and> entry_key transfer_log \<noteq> entry_key transfer_log_reobserved
   \<and> event_keys (db \<lparr>db = empty_db, processed_count = 0, fraud_detected_count = 0\<rparr>) = {}
   \<and> processed_count
        (process_events node_env ''0x3333333333333333333333333333333333333333''
           ''TransactionSubmitted''
           \<lparr>db = empty_db, processed_count = 0, fraud_detected_count = 0\<rparr>
           [transfer_log, undecodable_log, transfer_log_reobserved]) = 2
   \<and> event_keys
        (db (process_events node_env ''0x3333333333333333333333333333333333333333''
               ''TransactionSubmitted''
               \<lparr>db = empty_db, processed_count = 0, fraud_detected_count = 0\<rparr>
               [transfer_log, undecodable_log, transfer_log_reobserved]))
       = {entry_key transfer_log, entry_key transfer_log_reobserved}
   \<and> outcomes node_env ''0x3333333333333333333333333333333333333333'' ''TransactionSubmitted''
        \<lparr>db = empty_db, processed_count = 0, fraud_detected_count = 0\<rparr>
        [transfer_log, undecodable_log, transfer_log_reobserved]
       = [Inserted, Failed DecodeError, Inserted]"
proof -
  let ?c = "''0x3333333333333333333333333333333333333333''"
  let ?n = "''TransactionSubmitted''"
  let ?rs = "\<lparr>db = empty_db, processed_count = 0, fraud_detected_count = 0\<rparr>"
  have m: "malformed node_env ?c ?n undecodable_log"
    by (simp add: malformed_def row_accepted_def undecodable_log_def)
  have ne: "entry_key transfer_log \<noteq> entry_key transfer_log_reobserved"
    by (simp add: entry_key_def transfer_log_reobserved_def transfer_log_def)
  have ek: "event_keys (db ?rs) = {}" by (simp add: event_keys_def empty_db_def)
  have w: "\<forall>ev\<in>set ([transfer_log] @ [transfer_log_reobserved]). well_formed node_env ?c ?n ev"
    using transfer_log_well_formed transfer_log_reobserved_well_formed by simp
  have d: "distinct (map entry_key ([transfer_log] @ [transfer_log_reobserved]))"
    using ne by simp
  have f: "\<forall>ev\<in>set ([transfer_log] @ [transfer_log_reobserved]).
             entry_key ev \<notin> event_keys (db ?rs)"
    unfolding ek by simp
  note t = one_malformed_entry_does_not_abort_batch [OF m w d f]
  have t1: "processed_count (process_events node_env ?c ?n ?rs
              ([transfer_log] @ undecodable_log # [transfer_log_reobserved]))
           = processed_count ?rs
             + (length ([transfer_log] @ undecodable_log # [transfer_log_reobserved]) - 1)"
    using t by blast
  have t2: "event_keys (db (process_events node_env ?c ?n ?rs
              ([transfer_log] @ undecodable_log # [transfer_log_reobserved])))
           = event_keys (db ?rs) \<union> entry_key ` set ([transfer_log] @ [transfer_log_reobserved])"
    using t by blast
  have c1: "processed_count (process_events node_env ?c ?n ?rs
              [transfer_log, undecodable_log, transfer_log_reobserved]) = 2"
    using t1 by simp
  have c2: "event_keys (db (process_events node_env ?c ?n ?rs
              [transfer_log, undecodable_log, transfer_log_reobserved]))
           = {entry_key transfer_log, entry_key transfer_log_reobserved}"
    using t2 unfolding ek by simp
  from m transfer_log_well_formed transfer_log_reobserved_well_formed ne ek c1 c2 batch_outcomes
  show ?thesis by blast
qed

end
